theory Spec2Isabelle
  imports Complex_Main "HOL-Library.Sublist"
begin

section \<open>Data model\<close>

text \<open>
  \<^verbatim>\<open>types.ts\<close>: an \<^verbatim>\<open>Observation\<close>. The string enums (\<^verbatim>\<open>TaxonomicGroup\<close>, \<^verbatim>\<open>Status\<close>, ...)
  are strings at run time and nothing read back from the store or from localStorage is
  validated against them, so they are strings here. Numbers are only copied, never
  computed on. The field \<^verbatim>\<open>id\<close> is written \<open>id'\<close> (\<open>id\<close> is the identity function of HOL);
  its type is \<^verbatim>\<open>string\<close>, and the empty string is its only falsy value.
\<close>

record gps_point =
  lat :: "real option"
  lon :: "real option"

text \<open>
  The columns of the table \<^verbatim>\<open>observations\<close> that the two mappers read and write. A row
  read from the store carries its \<^verbatim>\<open>id\<close>; a row sent to the store carries \<^verbatim>\<open>user_id\<close>
  and no \<^verbatim>\<open>id\<close>.
\<close>

record columns =
  species_name :: string
  latin_name :: string
  taxonomic_group :: string
  date :: string
  time :: string
  count :: real
  location :: string
  gps_lat :: "real option"
  gps_lon :: "real option"
  municipality :: string
  department :: string
  country :: string
  altitude :: "real option"
  comment :: string
  status :: string
  atlas_code :: string
  protocol :: string
  sexe :: string
  age :: string
  observation_condition :: string
  comportement :: string
  photo_url :: "string option"
  wikipedia_image :: "string option"
  sound_url :: "string option"

record db_row = columns +
  id' :: string

record sent_row = columns +
  user_id :: string

record observation =
  id' :: string
  speciesName :: string
  latinName :: string
  taxonomicGroup :: string
  date :: string
  time :: string
  count :: real
  location :: string
  gps :: gps_point
  municipality :: string
  department :: string
  country :: string
  altitude :: "real option"
  comment :: string
  status :: string
  atlasCode :: string
  protocol :: string
  sexe :: string
  age :: string
  observationCondition :: string
  comportement :: string
  photo :: "string option"
  sound :: "string option"
  wikipediaImage :: "string option"

text \<open>\<^verbatim>\<open>mapToObservation\<close>: a row of the store as an \<^verbatim>\<open>Observation\<close>.\<close>

definition mapToObservation :: "db_row \<Rightarrow> observation" where
  "mapToObservation row =
     \<lparr> id' = db_row.id' row,
       speciesName = species_name row,
       latinName = latin_name row,
       taxonomicGroup = taxonomic_group row,
       date = columns.date row,
       time = columns.time row,
       count = columns.count row,
       location = columns.location row,
       gps = \<lparr> lat = gps_lat row, lon = gps_lon row \<rparr>,
       municipality = columns.municipality row,
       department = columns.department row,
       country = columns.country row,
       altitude = columns.altitude row,
       comment = columns.comment row,
       status = columns.status row,
       atlasCode = atlas_code row,
       protocol = columns.protocol row,
       sexe = columns.sexe row,
       age = columns.age row,
       observationCondition = observation_condition row,
       comportement = columns.comportement row,
       photo = photo_url row,
       sound = sound_url row,
       wikipediaImage = wikipedia_image row \<rparr>"

text \<open>
  \<^verbatim>\<open>mapToRow\<close>: an \<^verbatim>\<open>Observation\<close> as a row to send. The \<^verbatim>\<open>id\<close> of the observation is
  not copied: no row sent to the store carries one.
\<close>

definition mapToRow :: "observation \<Rightarrow> string \<Rightarrow> sent_row" where
  "mapToRow obs userId =
     \<lparr> species_name = speciesName obs,
       latin_name = latinName obs,
       taxonomic_group = taxonomicGroup obs,
       columns.date = date obs,
       columns.time = time obs,
       columns.count = count obs,
       columns.location = location obs,
       gps_lat = lat (gps obs),
       gps_lon = lon (gps obs),
       columns.municipality = municipality obs,
       columns.department = department obs,
       columns.country = country obs,
       columns.altitude = altitude obs,
       columns.comment = comment obs,
       columns.status = status obs,
       atlas_code = atlasCode obs,
       columns.protocol = protocol obs,
       columns.sexe = sexe obs,
       columns.age = age obs,
       observation_condition = observationCondition obs,
       columns.comportement = comportement obs,
       photo_url = photo obs,
       wikipedia_image = wikipediaImage obs,
       sound_url = sound obs,
       user_id = userId \<rparr>"

section \<open>Errors, the Supabase client, the environment\<close>

text \<open>
  What a function of the service can throw: \<^verbatim>\<open>new Error(message)\<close>; the error object of a
  reply thrown as it is, or the rejection of an awaited call (\<open>RemoteError\<close>); a
  \<^verbatim>\<open>TypeError\<close> (a property read on \<^verbatim>\<open>null\<close> or \<^verbatim>\<open>undefined\<close>); a \<^verbatim>\<open>ReferenceError\<close> (an
  identifier that no scope binds).
\<close>

datatype error =
    Error string
  | RemoteError string
  | TypeError string
  | ReferenceError string

text \<open>
  An awaited call of the client either rejects, or resolves to \<^verbatim>\<open>{ data, error }\<close>, each
  of which may be \<^verbatim>\<open>null\<close>.
\<close>

datatype 'd outcome =
    Rejects string
  | Resolves "'d option" "string option"

text \<open>
  The client \<^verbatim>\<open>supabase\<close> (\<^verbatim>\<open>supabaseClient\<close>, a library object) is a parameter: one handler
  for each query the service builds on \<^verbatim>\<open>supabase.from('observations')\<close>, over a state of
  the store of any type \<open>'r\<close>, and \<^verbatim>\<open>supabase.auth.getUser()\<close>, which gives the id of the user
  or \<^verbatim>\<open>null\<close> (it resolves to \<^verbatim>\<open>{ data: { user } }\<close>, as the destructuring of its result in
  every caller presumes). \<^verbatim>\<open>upsert\<close> takes one row in the drain and an array in \<^verbatim>\<open>syncObservations\<close>;
  the one row is the singleton list.
\<close>

record 'r supabase =
  auth_getUser :: "'r \<Rightarrow> string option"
  from_select :: "'r \<Rightarrow> db_row list outcome \<times> 'r"
  from_insert_select_single :: "sent_row \<Rightarrow> 'r \<Rightarrow> db_row outcome \<times> 'r"
  from_insert :: "sent_row \<Rightarrow> 'r \<Rightarrow> unit outcome \<times> 'r"
  from_upsert :: "sent_row list \<Rightarrow> 'r \<Rightarrow> unit outcome \<times> 'r"
  from_update_eq :: "sent_row \<Rightarrow> string \<Rightarrow> 'r \<Rightarrow> unit outcome \<times> 'r"
  from_delete_eq :: "string \<Rightarrow> 'r \<Rightarrow> unit outcome \<times> 'r"

text \<open>The queries sent to the store, recorded in the order they are awaited.\<close>

datatype call =
    Select
  | InsertSelectSingle sent_row
  | Insert sent_row
  | Upsert "sent_row list"
  | Update sent_row string
  | Delete string

text \<open>
  What one call of the service reads from its environment: \<^verbatim>\<open>navigator.onLine\<close>; the values
  of the successive calls of \<^verbatim>\<open>Date.now()\<close>; and what the free identifier \<^verbatim>\<open>id\<close> of
  \<^verbatim>\<open>processOfflineQueue\<close> resolves to in the global scope, as \<^verbatim>\<open>String(id)\<close>: no scope of the
  module binds it, so it is \<open>None\<close> unless the page itself defines a global of that name.
\<close>

record env =
  onLine :: bool
  dateNow :: "nat \<Rightarrow> nat"
  global_id :: "string option"

section \<open>The pending operation log and the local cache\<close>

datatype action = INSERT | UPDATE | DELETE

text \<open>
  The payload of a queued item is an \<^verbatim>\<open>Observation\<close> (insert, update) or \<^verbatim>\<open>{ id }\<close> (delete).
\<close>

datatype payload =
    Obs observation
  | IdOnly string

fun payload_id :: "payload \<Rightarrow> string" where
  "payload_id (Obs obs) = observation.id' obs"
| "payload_id (IdOnly i) = i"

record queue_item =
  action :: action
  payload :: payload
  timestamp :: nat

text \<open>
  The two keys of localStorage, \<^verbatim>\<open>offline_sync_queue\<close> and \<^verbatim>\<open>local_observations_cache\<close>, as
  the lists that \<^verbatim>\<open>JSON.parse(localStorage.getItem(KEY) || '[]')\<close> reads and
  \<^verbatim>\<open>JSON.stringify\<close> writes (a missing key is the empty list); the state of the store; and
  the log of the queries sent so far.
\<close>

record 'r state =
  queue :: "queue_item list"
  cache :: "observation list"
  remote :: 'r
  calls :: "call list"

definition addToQueue :: "action \<Rightarrow> payload \<Rightarrow> nat \<Rightarrow> 'r state \<Rightarrow> 'r state" where
  "addToQueue a p now s =
     s\<lparr> queue := queue s @ [\<lparr> action = a, payload = p, timestamp = now \<rparr>] \<rparr>"

definition getLocalCache :: "'r state \<Rightarrow> observation list" where
  "getLocalCache s = cache s"

definition setLocalCache :: "observation list \<Rightarrow> 'r state \<Rightarrow> 'r state" where
  "setLocalCache observations s = s\<lparr> cache := observations \<rparr>"

text \<open>Awaiting a query: the store moves on and the query is logged.\<close>

definition await :: "('r \<Rightarrow> 'd outcome \<times> 'r) \<Rightarrow> call \<Rightarrow> 'r state \<Rightarrow> 'd outcome \<times> 'r state" where
  "await q c s =
     (case q (remote s) of (out, r') \<Rightarrow> (out, s\<lparr> remote := r', calls := calls s @ [c] \<rparr>))"

section \<open>storageService.ts\<close>

text \<open>
  \<^verbatim>\<open>getObservations\<close>. Inside the \<^verbatim>\<open>try\<close>, a rejection, a reply with an error (thrown), and
  \<^verbatim>\<open>data.map\<close> on a \<^verbatim>\<open>null\<close> data (a TypeError) all reach the \<^verbatim>\<open>catch\<close>.
\<close>

definition getObservations :: "'r supabase \<Rightarrow> env \<Rightarrow> 'r state \<Rightarrow> observation list \<times> 'r state" where
  "getObservations sb e s =
     (if \<not> onLine e then (getLocalCache s, s)
      else
        (case await (from_select sb) Select s of
           (Rejects m, s1) \<Rightarrow> (getLocalCache s1, s1)
         | (Resolves d (Some m), s1) \<Rightarrow> (getLocalCache s1, s1)
         | (Resolves None None, s1) \<Rightarrow> (getLocalCache s1, s1)
         | (Resolves (Some rows) None, s1) \<Rightarrow>
             (let observations = map mapToObservation rows
              in (observations, setLocalCache observations s1))))"

text \<open>
  The template literal \<^verbatim>\<open>`temp-${Date.now()}`\<close> prints the number in decimal.
\<close>

fun string_of_nat :: "nat \<Rightarrow> string" where
  "string_of_nat n =
     (if n < 10 then [char_of (48 + n)]
      else string_of_nat (n div 10) @ [char_of (48 + n mod 10)])"

declare string_of_nat.simps [simp del]

text \<open>\<^verbatim>\<open>String.prototype.startsWith\<close>.\<close>

definition startsWith :: "string \<Rightarrow> string \<Rightarrow> bool" where
  "startsWith s p = (take (length p) s = p)"

text \<open>\<^verbatim>\<open>user?.id || 'offline-user'\<close>.\<close>

definition userId_or_offline :: "string option \<Rightarrow> string" where
  "userId_or_offline user =
     (case user of
        None \<Rightarrow> ''offline-user''
      | Some uid \<Rightarrow> if uid = [] then ''offline-user'' else uid)"

text \<open>
  \<^verbatim>\<open>saveObservation\<close>. Offline, \<^verbatim>\<open>observation.id || `temp-${Date.now()}`\<close> reads the clock only
  when the record has no id: then the first \<^verbatim>\<open>Date.now()\<close> names the placeholder and the
  second one (in \<^verbatim>\<open>addToQueue\<close>) stamps the queued item; when the record has an id, the
  stamp is the first reading. Online, an error of the insert is thrown to the caller;
  \<^verbatim>\<open>mapToObservation(data)\<close> on a \<^verbatim>\<open>null\<close> data is a TypeError.
\<close>

definition saveObservation ::
  "'r supabase \<Rightarrow> env \<Rightarrow> observation \<Rightarrow> 'r state \<Rightarrow> (error + observation) \<times> 'r state" where
  "saveObservation sb e observation s =
     (let user = auth_getUser sb (remote s) in
      if user = None \<and> onLine e then (Inl (Error ''User not authenticated''), s)
      else
        (let userId = userId_or_offline user in
         if \<not> onLine e then
           (let offlineObs =
                  observation\<lparr> observation.id' :=
                    (if observation.id' observation \<noteq> [] then observation.id' observation
                     else ''temp-'' @ string_of_nat (dateNow e 0)) \<rparr>;
                s1 = addToQueue INSERT (Obs offlineObs)
                       (if observation.id' observation \<noteq> [] then dateNow e 0 else dateNow e 1) s;
                currentCache = getLocalCache s1
            in (Inr offlineObs, setLocalCache (offlineObs # currentCache) s1))
         else
           (let row = mapToRow observation userId in
            case await (from_insert_select_single sb row) (InsertSelectSingle row) s of
              (Rejects m, s1) \<Rightarrow> (Inl (RemoteError m), s1)
            | (Resolves d (Some m), s1) \<Rightarrow> (Inl (Error m), s1)
            | (Resolves None None, s1) \<Rightarrow> (Inl (TypeError ''data is null''), s1)
            | (Resolves (Some data) None, s1) \<Rightarrow>
                (let savedObs = mapToObservation data;
                     currentCache = getLocalCache s1
                 in (Inr savedObs, setLocalCache (savedObs # currentCache) s1)))))"

text \<open>The callback of \<^verbatim>\<open>currentCache.map\<close> in \<^verbatim>\<open>updateObservation\<close>.\<close>

definition replaceById :: "observation \<Rightarrow> observation list \<Rightarrow> observation list" where
  "replaceById observation currentCache =
     map (\<lambda>obs. if observation.id' obs = observation.id' observation then observation else obs)
       currentCache"

text \<open>The callback of \<^verbatim>\<open>currentCache.filter\<close> in \<^verbatim>\<open>deleteObservation\<close>.\<close>

definition removeById :: "string \<Rightarrow> observation list \<Rightarrow> observation list" where
  "removeById i currentCache = filter (\<lambda>obs. observation.id' obs \<noteq> i) currentCache"

definition updateObservation ::
  "'r supabase \<Rightarrow> env \<Rightarrow> observation \<Rightarrow> 'r state \<Rightarrow> (error + unit) \<times> 'r state" where
  "updateObservation sb e observation s =
     (let user = auth_getUser sb (remote s);
          userId = userId_or_offline user in
      if \<not> onLine e then
        (let s1 = addToQueue UPDATE (Obs observation) (dateNow e 0) s;
             currentCache = getLocalCache s1;
             updatedCache = replaceById observation currentCache
         in (Inr (), setLocalCache updatedCache s1))
      else
        (let row = mapToRow observation userId in
         case await (from_update_eq sb row (observation.id' observation))
                (Update row (observation.id' observation)) s of
           (Rejects m, s1) \<Rightarrow> (Inl (RemoteError m), s1)
         | (Resolves d (Some m), s1) \<Rightarrow> (Inl (Error m), s1)
         | (Resolves d None, s1) \<Rightarrow>
             (let currentCache = getLocalCache s1;
                  updatedCache = replaceById observation currentCache
              in (Inr (), setLocalCache updatedCache s1))))"

definition deleteObservation ::
  "'r supabase \<Rightarrow> env \<Rightarrow> string \<Rightarrow> 'r state \<Rightarrow> (error + unit) \<times> 'r state" where
  "deleteObservation sb e i s =
     (if \<not> onLine e then
        (let s1 = addToQueue DELETE (IdOnly i) (dateNow e 0) s;
             currentCache = getLocalCache s1;
             updatedCache = removeById i currentCache
         in (Inr (), setLocalCache updatedCache s1))
      else
        (case await (from_delete_eq sb i) (Delete i) s of
           (Rejects m, s1) \<Rightarrow> (Inl (RemoteError m), s1)
         | (Resolves d (Some m), s1) \<Rightarrow> (Inl (Error m), s1)
         | (Resolves d None, s1) \<Rightarrow>
             (let currentCache = getLocalCache s1;
                  updatedCache = removeById i currentCache
              in (Inr (), setLocalCache updatedCache s1))))"

definition syncObservations ::
  "'r supabase \<Rightarrow> observation list \<Rightarrow> 'r state \<Rightarrow> (error + unit) \<times> 'r state" where
  "syncObservations sb observations s =
     (case auth_getUser sb (remote s) of
        None \<Rightarrow> (Inl (Error ''User not authenticated''), s)
      | Some uid \<Rightarrow>
          (let rows = map (\<lambda>obs. mapToRow obs uid) observations in
           case await (from_upsert sb rows) (Upsert rows) s of
             (Rejects m, s1) \<Rightarrow> (Inl (RemoteError m), s1)
           | (Resolves d (Some m), s1) \<Rightarrow> (Inl (Error m), s1)
           | (Resolves d None, s1) \<Rightarrow> (Inr (), s1)))"

subsection \<open>processOfflineQueue\<close>

text \<open>
  \<^verbatim>\<open>mapToRow(item.payload, user.id)\<close> on a queued payload: on \<^verbatim>\<open>{ id }\<close> the read
  \<^verbatim>\<open>obs.gps.lat\<close> is a TypeError.
\<close>

fun mapToRow_payload :: "payload \<Rightarrow> string \<Rightarrow> error + sent_row" where
  "mapToRow_payload (Obs obs) userId = Inr (mapToRow obs userId)"
| "mapToRow_payload (IdOnly i) userId = Inl (TypeError ''obs.gps is undefined'')"

text \<open>
  An awaited query inside the \<^verbatim>\<open>try\<close> of the drain: only a rejection throws; the reply,
  its \<^verbatim>\<open>error\<close> included, is dropped.
\<close>

definition await_ignoring_reply ::
  "('r \<Rightarrow> 'd outcome \<times> 'r) \<Rightarrow> call \<Rightarrow> 'r state \<Rightarrow> error option \<times> 'r state" where
  "await_ignoring_reply q c s =
     (case await q c s of
        (Rejects m, s1) \<Rightarrow> (Some (RemoteError m), s1)
      | (Resolves d err, s1) \<Rightarrow> (None, s1))"

text \<open>
  The body of the \<^verbatim>\<open>try\<close> for one item: \<open>Some\<close> error when it throws. In the INSERT branch
  the condition reads the identifier \<^verbatim>\<open>id\<close>, not \<^verbatim>\<open>item.payload.id\<close>.
\<close>

definition try_item ::
  "'r supabase \<Rightarrow> env \<Rightarrow> string \<Rightarrow> queue_item \<Rightarrow> 'r state \<Rightarrow> error option \<times> 'r state" where
  "try_item sb e uid item s =
     (case action item of
        INSERT \<Rightarrow>
          (case mapToRow_payload (payload item) uid of
             Inl err \<Rightarrow> (Some err, s)
           | Inr row \<Rightarrow>
               (case global_id e of
                  None \<Rightarrow> (Some (ReferenceError ''id is not defined''), s)
                | Some g \<Rightarrow>
                    if startsWith g ''temp-''
                    then await_ignoring_reply (from_insert sb row) (Insert row) s
                    else await_ignoring_reply (from_upsert sb [row]) (Upsert [row]) s))
      | UPDATE \<Rightarrow>
          (case mapToRow_payload (payload item) uid of
             Inl err \<Rightarrow> (Some err, s)
           | Inr row \<Rightarrow>
               await_ignoring_reply (from_update_eq sb row (payload_id (payload item)))
                 (Update row (payload_id (payload item))) s)
      | DELETE \<Rightarrow>
          await_ignoring_reply (from_delete_eq sb (payload_id (payload item)))
            (Delete (payload_id (payload item))) s)"

text \<open>
  The loop \<^verbatim>\<open>for (const item of queue)\<close>: the \<^verbatim>\<open>catch\<close> pushes the item on \<^verbatim>\<open>newQueue\<close>.
\<close>

fun drain_loop ::
  "'r supabase \<Rightarrow> env \<Rightarrow> string \<Rightarrow> queue_item list \<Rightarrow> queue_item list \<Rightarrow> 'r state
    \<Rightarrow> queue_item list \<times> 'r state" where
  "drain_loop sb e uid [] newQueue s = (newQueue, s)"
| "drain_loop sb e uid (item # rest) newQueue s =
     (case try_item sb e uid item s of
        (None, s1) \<Rightarrow> drain_loop sb e uid rest newQueue s1
      | (Some err, s1) \<Rightarrow> drain_loop sb e uid rest (newQueue @ [item]) s1)"

text \<open>
  \<^verbatim>\<open>processOfflineQueue\<close>. The final select is outside any \<^verbatim>\<open>try\<close>: its rejection is thrown
  to the caller, after the new queue has been stored.
\<close>

definition processOfflineQueue ::
  "'r supabase \<Rightarrow> env \<Rightarrow> 'r state \<Rightarrow> (error + unit) \<times> 'r state" where
  "processOfflineQueue sb e s =
     (if \<not> onLine e then (Inr (), s)
      else if length (queue s) = 0 then (Inr (), s)
      else
        (case auth_getUser sb (remote s) of
           None \<Rightarrow> (Inr (), s)
         | Some uid \<Rightarrow>
             (case drain_loop sb e uid (queue s) [] s of
                (newQueue, s1) \<Rightarrow>
                  (let s2 = s1\<lparr> queue := newQueue \<rparr> in
                   if length newQueue = 0 then
                     (case await (from_select sb) Select s2 of
                        (Rejects m, s3) \<Rightarrow> (Inl (RemoteError m), s3)
                      | (Resolves None err, s3) \<Rightarrow> (Inr (), s3)
                      | (Resolves (Some rows) err, s3) \<Rightarrow>
                          (Inr (), setLocalCache (map mapToObservation rows) s3))
                   else (Inr (), s2)))))"

section \<open>App.tsx: the merge of an import\<close>

text \<open>\<^verbatim>\<open>Array.prototype.findIndex\<close>: the first index whose element passes, \<open>None\<close> for -1.\<close>

fun findIndex :: "('a \<Rightarrow> bool) \<Rightarrow> 'a list \<Rightarrow> nat option" where
  "findIndex P [] = None"
| "findIndex P (x # xs) = (if P x then Some 0 else map_option Suc (findIndex P xs))"

text \<open>
  The callback of \<^verbatim>\<open>importedObservations.forEach\<close> on the array \<^verbatim>\<open>mergedObservations\<close>. The
  counters \<^verbatim>\<open>addedCount\<close> and \<^verbatim>\<open>updatedCount\<close> are written and never read.
\<close>

definition mergeStep :: "observation list \<Rightarrow> observation \<Rightarrow> observation list" where
  "mergeStep mergedObservations newObs =
     (case findIndex (\<lambda>existingObs. observation.id' existingObs = observation.id' newObs)
             mergedObservations of
        Some index \<Rightarrow> mergedObservations[index := newObs]
      | None \<Rightarrow> mergedObservations @ [newObs])"

text \<open>\<^verbatim>\<open>forEach\<close> over the imported list, starting from a copy of \<^verbatim>\<open>observations\<close>.\<close>

definition mergeObservations :: "observation list \<Rightarrow> observation list \<Rightarrow> observation list" where
  "mergeObservations observations importedObservations =
     foldl mergeStep observations importedObservations"

text \<open>
  \<^verbatim>\<open>onConfirm\<close> of \<^verbatim>\<open>handleImportRequest\<close>, over the list \<^verbatim>\<open>observations\<close> the component holds:
  \<open>Inr\<close> the list given to \<^verbatim>\<open>setObservations\<close>, \<open>Inl\<close> the error caught and shown. The local
  cache of the service is not written.
\<close>

definition handleImportRequest ::
  "'r supabase \<Rightarrow> observation list \<Rightarrow> observation list \<Rightarrow> 'r state
    \<Rightarrow> (error + observation list) \<times> 'r state" where
  "handleImportRequest sb observations importedObservations s =
     (let mergedObservations = mergeObservations observations importedObservations in
      case syncObservations sb mergedObservations s of
        (Inl err, s1) \<Rightarrow> (Inl err, s1)
      | (Inr u, s1) \<Rightarrow> (Inr mergedObservations, s1))"

section \<open>Sequences of operations\<close>

text \<open>
  The operations the interface calls, each with the environment of its call; an import
  comes with the list the component holds at that moment. A thrown error leaves the state
  as it was when thrown.
\<close>

datatype op =
    OpFetch
  | OpCreate observation
  | OpUpdate observation
  | OpDelete string
  | OpImport "observation list" "observation list"
  | OpDrain

fun step :: "'r supabase \<Rightarrow> env \<times> op \<Rightarrow> 'r state \<Rightarrow> 'r state" where
  "step sb (e, OpFetch) s = snd (getObservations sb e s)"
| "step sb (e, OpCreate obs) s = snd (saveObservation sb e obs s)"
| "step sb (e, OpUpdate obs) s = snd (updateObservation sb e obs s)"
| "step sb (e, OpDelete i) s = snd (deleteObservation sb e i s)"
| "step sb (e, OpImport current imported) s = snd (handleImportRequest sb current imported s)"
| "step sb (e, OpDrain) s = snd (processOfflineQueue sb e s)"

fun run :: "'r supabase \<Rightarrow> (env \<times> op) list \<Rightarrow> 'r state \<Rightarrow> 'r state" where
  "run sb [] s = s"
| "run sb (x # xs) s = run sb xs (step sb x s)"

text \<open>No two entries of the local cache have the same id.\<close>

definition unique_ids :: "observation list \<Rightarrow> bool" where
  "unique_ids obss = distinct (map observation.id' obss)"

text \<open>
  What a create needs from its caller and from the store for its id to be new. Offline, a
  record that carries an id carries one that the cache does not hold and that does not
  start with \<^verbatim>\<open>temp-\<close> (a record without an id needs nothing here). Online, when the store
  answers the insert with a row, the id of that row is one that the cache does not hold and
  that does not start with \<^verbatim>\<open>temp-\<close>.
\<close>

fun create_ok :: "'r supabase \<Rightarrow> env \<times> op \<Rightarrow> 'r state \<Rightarrow> bool" where
  "create_ok sb (e, OpCreate obs) s =
     (if onLine e then
        (case fst (from_insert_select_single sb
                     (mapToRow obs (userId_or_offline (auth_getUser sb (remote s)))) (remote s)) of
           Resolves (Some row) None \<Rightarrow>
             db_row.id' row \<notin> set (map observation.id' (cache s))
             \<and> \<not> startsWith (db_row.id' row) ''temp-''
         | _ \<Rightarrow> True)
      else
        (observation.id' obs = []
         \<or> (observation.id' obs \<notin> set (map observation.id' (cache s))
             \<and> \<not> startsWith (observation.id' obs) ''temp-'')))"
| "create_ok sb (e, x) s = True"

fun creates_ok :: "'r supabase \<Rightarrow> (env \<times> op) list \<Rightarrow> 'r state \<Rightarrow> bool" where
  "creates_ok sb [] s = True"
| "creates_ok sb (x # xs) s = (create_ok sb x s \<and> creates_ok sb xs (step sb x s))"

text \<open>
  The values of \<^verbatim>\<open>Date.now()\<close> that name a placeholder along a sequence: the first reading
  of each offline create of a record without an id.
\<close>

fun placeholder_clocks :: "(env \<times> op) list \<Rightarrow> nat list" where
  "placeholder_clocks [] = []"
| "placeholder_clocks ((e, OpCreate obs) # xs) =
     (if \<not> onLine e \<and> observation.id' obs = [] then dateNow e 0 # placeholder_clocks xs
      else placeholder_clocks xs)"
| "placeholder_clocks ((e, x) # xs) = placeholder_clocks xs"

text \<open>The store never answers a select with two rows of the same id (\<^verbatim>\<open>id\<close> is its primary key).\<close>

definition select_unique :: "'r supabase \<Rightarrow> bool" where
  "select_unique sb =
     (\<forall>r rows err r'. from_select sb r = (Resolves (Some rows) err, r')
        \<longrightarrow> distinct (map db_row.id' rows))"

text \<open>No row that a select lists has an id that starts with \<^verbatim>\<open>temp-\<close> (its ids are uuids).\<close>

definition select_no_temp :: "'r supabase \<Rightarrow> bool" where
  "select_no_temp sb =
     (\<forall>r rows err r'. from_select sb r = (Resolves (Some rows) err, r')
        \<longrightarrow> (\<forall>row \<in> set rows. \<not> startsWith (db_row.id' row) ''temp-''))"

text \<open>An awaited call failed: it rejected, or its reply carries an error.\<close>

fun failed :: "'d outcome \<Rightarrow> bool" where
  "failed (Rejects m) = True"
| "failed (Resolves d err) = (err \<noteq> None)"

section \<open>Sample inputs\<close>

text \<open>A record with the given id and species name, the other fields empty.\<close>

definition sample_obs :: "string \<Rightarrow> string \<Rightarrow> observation" where
  "sample_obs i name =
     \<lparr> id' = i, speciesName = name, latinName = [], taxonomicGroup = ''Oiseaux'',
       date = ''2024-05-01'', time = ''12:00'', count = 1, location = [],
       gps = \<lparr> lat = None, lon = None \<rparr>, municipality = [], department = [],
       country = ''France'', altitude = None, comment = [], status = ''NE'',
       atlasCode = [], protocol = ''Opportuniste'', sexe = [], age = [],
       observationCondition = [], comportement = [], photo = None, sound = None,
       wikipediaImage = None \<rparr>"

text \<open>The row of the store with the given id and species name.\<close>

definition sample_row :: "string \<Rightarrow> string \<Rightarrow> db_row" where
  "sample_row i name =
     \<lparr> species_name = name, latin_name = [], taxonomic_group = ''Oiseaux'',
       columns.date = ''2024-05-01'', columns.time = ''12:00'', columns.count = 1,
       columns.location = [], gps_lat = None, gps_lon = None, columns.municipality = [],
       columns.department = [], columns.country = ''France'', columns.altitude = None,
       columns.comment = [], columns.status = ''NE'', atlas_code = [],
       columns.protocol = ''Opportuniste'', columns.sexe = [], columns.age = [],
       observation_condition = [], columns.comportement = [], photo_url = None,
       wikipedia_image = None, sound_url = None, db_row.id' = i \<rparr>"

text \<open>
  A client that answers every select, every insert-returning and every other write with
  a fixed outcome each, for the given user; the store has no state of its own.
\<close>

definition fixed_client ::
  "string option \<Rightarrow> db_row list outcome \<Rightarrow> db_row outcome \<Rightarrow> unit outcome \<Rightarrow> unit supabase" where
  "fixed_client user sel ins wr =
     \<lparr> auth_getUser = (\<lambda>r. user),
       from_select = (\<lambda>r. (sel, r)),
       from_insert_select_single = (\<lambda>row r. (ins, r)),
       from_insert = (\<lambda>row r. (wr, r)),
       from_upsert = (\<lambda>rows r. (wr, r)),
       from_update_eq = (\<lambda>row i r. (wr, r)),
       from_delete_eq = (\<lambda>i r. (wr, r)) \<rparr>"

definition env_of :: "bool \<Rightarrow> nat \<Rightarrow> env" where
  "env_of online now = \<lparr> onLine = online, dateNow = (\<lambda>k. now + k), global_id = None \<rparr>"

definition state_of :: "queue_item list \<Rightarrow> observation list \<Rightarrow> unit state" where
  "state_of q c = \<lparr> queue = q, cache = c, remote = (), calls = [] \<rparr>"

section \<open>Properties\<close>

subsection \<open>Reading: getObservations\<close>

text \<open>
  C8. \<^verbatim>\<open>getObservations\<close> returns the local cache, and leaves the whole state as it is,
  when offline; when online and the select did not succeed (it rejected, replied with an
  error, or replied with no data) it returns the local cache, and the cache and the
  pending log are unchanged; when the select succeeded it returns the fetched records and
  the cache holds exactly them afterwards.
\<close>

theorem getObservations_cache_fallback:
  "(\<not> onLine e \<longrightarrow> getObservations sb e s = (cache s, s))
   \<and> (onLine e \<and> (\<forall>rows. fst (from_select sb (remote s)) \<noteq> Resolves (Some rows) None)
        \<longrightarrow> fst (getObservations sb e s) = cache s
          \<and> cache (snd (getObservations sb e s)) = cache s
          \<and> queue (snd (getObservations sb e s)) = queue s)
   \<and> (onLine e \<and> fst (from_select sb (remote s)) = Resolves (Some rows) None
        \<longrightarrow> fst (getObservations sb e s) = map mapToObservation rows
          \<and> cache (snd (getObservations sb e s)) = map mapToObservation rows
          \<and> queue (snd (getObservations sb e s)) = queue s)"
proof (intro conjI impI)
  assume "\<not> onLine e"
  then show "getObservations sb e s = (cache s, s)"
    by (simp add: getObservations_def getLocalCache_def)
next
  assume a: "onLine e \<and> (\<forall>rows. fst (from_select sb (remote s)) \<noteq> Resolves (Some rows) None)"
  obtain out r1 where sel: "from_select sb (remote s) = (out, r1)"
    by (cases "from_select sb (remote s)")
  with a have f: "\<forall>rows. out \<noteq> Resolves (Some rows) None" by simp
  have "getObservations sb e s = (cache s, s\<lparr> remote := r1, calls := calls s @ [Select] \<rparr>)"
  proof (cases out)
    case (Rejects m)
    with a sel show ?thesis
      by (simp add: getObservations_def getLocalCache_def await_def)
  next
    case (Resolves d err)
    with a sel f show ?thesis
      by (cases d; cases err)
         (simp_all add: getObservations_def getLocalCache_def await_def)
  qed
  then show "fst (getObservations sb e s) = cache s"
    and "cache (snd (getObservations sb e s)) = cache s"
    and "queue (snd (getObservations sb e s)) = queue s"
    by simp_all
next
  assume a: "onLine e \<and> fst (from_select sb (remote s)) = Resolves (Some rows) None"
  obtain out r1 where sel: "from_select sb (remote s) = (out, r1)"
    by (cases "from_select sb (remote s)")
  with a have "out = Resolves (Some rows) None" by simp
  with a sel have "getObservations sb e s =
      (map mapToObservation rows,
       s\<lparr> remote := r1, calls := calls s @ [Select], cache := map mapToObservation rows \<rparr>)"
    by (simp add: getObservations_def getLocalCache_def setLocalCache_def await_def Let_def)
  then show "fst (getObservations sb e s) = map mapToObservation rows"
    and "cache (snd (getObservations sb e s)) = map mapToObservation rows"
    and "queue (snd (getObservations sb e s)) = queue s"
    by simp_all
qed

text \<open>
  The three cases at concrete inputs: offline; online with a reply that carries an error;
  online with a reply of one row.
\<close>

theorem getObservations_cache_fallback_witness:
  "getObservations (fixed_client None (Rejects ''down'') (Rejects ''down'') (Rejects ''down''))
      (env_of False 7) (state_of [] [sample_obs ''a'' ''Merle noir''])
     = ([sample_obs ''a'' ''Merle noir''], state_of [] [sample_obs ''a'' ''Merle noir''])
   \<and> fst (getObservations (fixed_client None (Resolves None (Some ''boom'')) (Rejects ''down'') (Rejects ''down''))
      (env_of True 7) (state_of [] [sample_obs ''a'' ''Merle noir''])) = [sample_obs ''a'' ''Merle noir'']
   \<and> cache (snd (getObservations (fixed_client None (Resolves (Some [sample_row ''b'' ''Pie'']) None) (Rejects ''down'') (Rejects ''down''))
      (env_of True 7) (state_of [] [sample_obs ''a'' ''Merle noir'']))) = [sample_obs ''b'' ''Pie'']"
proof -
  let ?s = "state_of [] [sample_obs ''a'' ''Merle noir'']"
  let ?down = "fixed_client None (Rejects ''down'') (Rejects ''down'') (Rejects ''down'')"
  let ?boom = "fixed_client None (Resolves None (Some ''boom'')) (Rejects ''down'') (Rejects ''down'')"
  let ?ok = "fixed_client None (Resolves (Some [sample_row ''b'' ''Pie'']) None) (Rejects ''down'') (Rejects ''down'')"
  have off: "\<not> onLine (env_of False 7)" and on: "onLine (env_of True 7)"
    by (simp_all add: env_of_def)
  have c: "cache ?s = [sample_obs ''a'' ''Merle noir'']"
    by (simp add: state_of_def)
  have fl: "\<forall>rows. fst (from_select ?boom (remote ?s)) \<noteq> Resolves (Some rows) None"
    by (simp add: fixed_client_def)
  have su: "fst (from_select ?ok (remote ?s)) = Resolves (Some [sample_row ''b'' ''Pie'']) None"
    by (simp add: fixed_client_def)
  have m: "map mapToObservation [sample_row ''b'' ''Pie''] = [sample_obs ''b'' ''Pie'']"
    by (simp add: mapToObservation_def sample_row_def sample_obs_def)
  from getObservations_cache_fallback [of "env_of False 7" ?down ?s] off c
  have 1: "getObservations ?down (env_of False 7) ?s = ([sample_obs ''a'' ''Merle noir''], ?s)"
    by simp
  from getObservations_cache_fallback [of "env_of True 7" ?boom ?s] on fl c
  have 2: "fst (getObservations ?boom (env_of True 7) ?s) = [sample_obs ''a'' ''Merle noir'']"
    by simp
  from getObservations_cache_fallback [of "env_of True 7" ?ok ?s "[sample_row ''b'' ''Pie'']"] on su m
  have 3: "cache (snd (getObservations ?ok (env_of True 7) ?s)) = [sample_obs ''b'' ''Pie'']"
    by simp
  from 1 2 3 show ?thesis by blast
qed

subsection \<open>Offline writes\<close>

lemma string_of_nat_42: "string_of_nat 42 = ''42''"
  by code_simp

text \<open>
  C7. An offline \<^verbatim>\<open>saveObservation\<close> returns a record that is the input with an id; the
  record is the head of the local cache afterwards and is in what \<^verbatim>\<open>getObservations\<close> then
  lists; its id is not empty; and when the input had no id, the id starts with \<^verbatim>\<open>temp-\<close>.
\<close>

theorem saveObservation_offline_visible:
  assumes "\<not> onLine e"
  shows "\<exists>offlineObs.
           fst (saveObservation sb e observation s) = Inr offlineObs
         \<and> offlineObs = observation\<lparr> observation.id' := observation.id' offlineObs \<rparr>
         \<and> cache (snd (saveObservation sb e observation s)) = offlineObs # cache s
         \<and> offlineObs \<in> set (fst (getObservations sb e (snd (saveObservation sb e observation s))))
         \<and> observation.id' offlineObs \<noteq> []
         \<and> (observation.id' observation = []
              \<longrightarrow> startsWith (observation.id' offlineObs) ''temp-'')"
proof (cases "observation.id' observation = []")
  case True
  with assms show ?thesis
    by (simp add: saveObservation_def getObservations_def getLocalCache_def setLocalCache_def
        addToQueue_def Let_def startsWith_def)
next
  case False
  with assms show ?thesis
    by (simp add: saveObservation_def getObservations_def getLocalCache_def setLocalCache_def
        addToQueue_def Let_def)
qed

text \<open>
  The scenario of the specification: the offline create of a record named Merle noir with
  no id, at time 42, gives the id \<^verbatim>\<open>temp-42\<close> and a queue of length one.
\<close>

theorem saveObservation_offline_visible_witness:
  "\<not> onLine (env_of False 42)
   \<and> saveObservation (fixed_client None (Rejects ''down'') (Rejects ''down'') (Rejects ''down''))
          (env_of False 42) (sample_obs [] ''Merle noir'') (state_of [] [])
       = (Inr (sample_obs ''temp-42'' ''Merle noir''),
          state_of [\<lparr> action = INSERT, payload = Obs (sample_obs ''temp-42'' ''Merle noir''),
                       timestamp = 43 \<rparr>]
            [sample_obs ''temp-42'' ''Merle noir''])
   \<and> startsWith ''temp-42'' ''temp-''"
proof -
  let ?c = "fixed_client None (Rejects ''down'') (Rejects ''down'') (Rejects ''down'')"
  let ?o = "sample_obs [] ''Merle noir''"
  have h: "\<not> onLine (env_of False 42)"
    by (simp add: env_of_def)
  have ev: "saveObservation ?c (env_of False 42) ?o (state_of [] [])
       = (Inr (sample_obs ''temp-42'' ''Merle noir''),
          state_of [\<lparr> action = INSERT, payload = Obs (sample_obs ''temp-42'' ''Merle noir''),
                       timestamp = 43 \<rparr>]
            [sample_obs ''temp-42'' ''Merle noir''])"
    by (simp add: env_of_def fixed_client_def state_of_def sample_obs_def saveObservation_def
        getLocalCache_def setLocalCache_def addToQueue_def Let_def string_of_nat_42)
  from saveObservation_offline_visible [OF h, of ?c ?o "state_of [] []"]
  obtain offlineObs where
    r: "fst (saveObservation ?c (env_of False 42) ?o (state_of [] [])) = Inr offlineObs"
    and t: "observation.id' ?o = [] \<longrightarrow> startsWith (observation.id' offlineObs) ''temp-''"
    by blast
  from r ev have "offlineObs = sample_obs ''temp-42'' ''Merle noir''"
    by simp
  with t have "startsWith ''temp-42'' ''temp-''"
    by (simp add: sample_obs_def)
  with h ev show ?thesis by blast
qed

lemma replaceById_no_match:
  "observation.id' observation \<notin> set (map observation.id' currentCache)
    \<Longrightarrow> replaceById observation currentCache = currentCache"
  by (induction currentCache) (auto simp: replaceById_def)

lemma removeById_no_match:
  "i \<notin> set (map observation.id' currentCache) \<Longrightarrow> removeById i currentCache = currentCache"
  by (induction currentCache) (auto simp: removeById_def)

text \<open>
  C10. Offline, an update of a record, or a delete of an id, that no entry of the local
  cache has, appends its item to the pending log and changes nothing else: the cache is
  the same.
\<close>

theorem offline_update_delete_no_match:
  assumes "\<not> onLine e"
  shows "(observation.id' observation \<notin> set (map observation.id' (cache s))
            \<longrightarrow> updateObservation sb e observation s =
                  (Inr (), s\<lparr> queue := queue s @
                     [\<lparr> action = UPDATE, payload = Obs observation, timestamp = dateNow e 0 \<rparr>] \<rparr>))
       \<and> (i \<notin> set (map observation.id' (cache s))
            \<longrightarrow> deleteObservation sb e i s =
                  (Inr (), s\<lparr> queue := queue s @
                     [\<lparr> action = DELETE, payload = IdOnly i, timestamp = dateNow e 0 \<rparr>] \<rparr>))"
proof (intro conjI impI)
  assume "observation.id' observation \<notin> set (map observation.id' (cache s))"
  then have "replaceById observation (cache s) = cache s"
    by (rule replaceById_no_match)
  with assms show "updateObservation sb e observation s =
      (Inr (), s\<lparr> queue := queue s @
         [\<lparr> action = UPDATE, payload = Obs observation, timestamp = dateNow e 0 \<rparr>] \<rparr>)"
    by (simp add: updateObservation_def getLocalCache_def setLocalCache_def addToQueue_def Let_def)
next
  assume "i \<notin> set (map observation.id' (cache s))"
  then have "removeById i (cache s) = cache s"
    by (rule removeById_no_match)
  with assms show "deleteObservation sb e i s =
      (Inr (), s\<lparr> queue := queue s @
         [\<lparr> action = DELETE, payload = IdOnly i, timestamp = dateNow e 0 \<rparr>] \<rparr>)"
    by (simp add: deleteObservation_def getLocalCache_def setLocalCache_def addToQueue_def Let_def)
qed

text \<open>
  An update and a delete of the id \<^verbatim>\<open>zz\<close> over a cache that holds the id \<^verbatim>\<open>a\<close> only.
\<close>

theorem offline_update_delete_no_match_witness:
  "\<not> onLine (env_of False 7)
   \<and> updateObservation (fixed_client None (Rejects ''down'') (Rejects ''down'') (Rejects ''down''))
       (env_of False 7) (sample_obs ''zz'' ''Geai'') (state_of [] [sample_obs ''a'' ''Pie''])
     = (Inr (), state_of [\<lparr> action = UPDATE, payload = Obs (sample_obs ''zz'' ''Geai''),
                            timestamp = 7 \<rparr>] [sample_obs ''a'' ''Pie''])
   \<and> deleteObservation (fixed_client None (Rejects ''down'') (Rejects ''down'') (Rejects ''down''))
       (env_of False 7) ''zz'' (state_of [] [sample_obs ''a'' ''Pie''])
     = (Inr (), state_of [\<lparr> action = DELETE, payload = IdOnly ''zz'', timestamp = 7 \<rparr>]
                  [sample_obs ''a'' ''Pie''])"
  using offline_update_delete_no_match [of "env_of False 7" "sample_obs ''zz'' ''Geai''"
      "state_of [] [sample_obs ''a'' ''Pie'']"
      "fixed_client None (Rejects ''down'') (Rejects ''down'') (Rejects ''down'')" "''zz''"]
  by (simp add: env_of_def state_of_def sample_obs_def)

subsection \<open>Online writes that fail\<close>

text \<open>
  C2 as stated fails. Online, with a user, the insert replies with an error: the create
  throws that error to its caller, and neither the pending log nor the local cache
  receives the record.
\<close>

theorem online_failure_counterexample:
  "onLine (env_of True 7)
   \<and> fst (saveObservation
        (fixed_client (Some ''u1'') (Rejects ''down'') (Resolves None (Some ''network error'')) (Rejects ''down''))
        (env_of True 7) (sample_obs [] ''Merle noir'') (state_of [] []))
       = Inl (Error ''network error'')
   \<and> queue (snd (saveObservation
        (fixed_client (Some ''u1'') (Rejects ''down'') (Resolves None (Some ''network error'')) (Rejects ''down''))
        (env_of True 7) (sample_obs [] ''Merle noir'') (state_of [] []))) = []
   \<and> cache (snd (saveObservation
        (fixed_client (Some ''u1'') (Rejects ''down'') (Resolves None (Some ''network error'')) (Rejects ''down''))
        (env_of True 7) (sample_obs [] ''Merle noir'') (state_of [] []))) = []"
  by (simp add: env_of_def fixed_client_def state_of_def saveObservation_def await_def Let_def)

text \<open>
  C2, amended. Online, when the query of a create, an update or a delete fails (it rejects,
  or replies with an error), the function throws to its caller, nothing is appended to the
  pending log and the local cache is unchanged.
\<close>

theorem online_failure_is_thrown:
  assumes "onLine e"
  shows "(failed (fst (from_insert_select_single sb
                    (mapToRow observation (userId_or_offline (auth_getUser sb (remote s))))
                    (remote s)))
            \<longrightarrow> isl (fst (saveObservation sb e observation s))
              \<and> queue (snd (saveObservation sb e observation s)) = queue s
              \<and> cache (snd (saveObservation sb e observation s)) = cache s)
       \<and> (failed (fst (from_update_eq sb
                    (mapToRow observation (userId_or_offline (auth_getUser sb (remote s))))
                    (observation.id' observation) (remote s)))
            \<longrightarrow> isl (fst (updateObservation sb e observation s))
              \<and> queue (snd (updateObservation sb e observation s)) = queue s
              \<and> cache (snd (updateObservation sb e observation s)) = cache s)
       \<and> (failed (fst (from_delete_eq sb i (remote s)))
            \<longrightarrow> isl (fst (deleteObservation sb e i s))
              \<and> queue (snd (deleteObservation sb e i s)) = queue s
              \<and> cache (snd (deleteObservation sb e i s)) = cache s)"
proof (intro conjI impI)
  let ?row = "mapToRow observation (userId_or_offline (auth_getUser sb (remote s)))"
  assume f: "failed (fst (from_insert_select_single sb ?row (remote s)))"
  obtain out r1 where q: "from_insert_select_single sb ?row (remote s) = (out, r1)"
    by (cases "from_insert_select_single sb ?row (remote s)")
  with f have "failed out" by simp
  with assms q show "isl (fst (saveObservation sb e observation s))"
    and "queue (snd (saveObservation sb e observation s)) = queue s"
    and "cache (snd (saveObservation sb e observation s)) = cache s"
    by (cases out; auto simp: saveObservation_def await_def Let_def split: option.splits)+
next
  let ?row = "mapToRow observation (userId_or_offline (auth_getUser sb (remote s)))"
  assume f: "failed (fst (from_update_eq sb ?row (observation.id' observation) (remote s)))"
  obtain out r1 where q: "from_update_eq sb ?row (observation.id' observation) (remote s) = (out, r1)"
    by (cases "from_update_eq sb ?row (observation.id' observation) (remote s)")
  with f have "failed out" by simp
  with assms q show "isl (fst (updateObservation sb e observation s))"
    and "queue (snd (updateObservation sb e observation s)) = queue s"
    and "cache (snd (updateObservation sb e observation s)) = cache s"
    by (cases out; auto simp: updateObservation_def await_def Let_def split: option.splits)+
next
  assume f: "failed (fst (from_delete_eq sb i (remote s)))"
  obtain out r1 where q: "from_delete_eq sb i (remote s) = (out, r1)"
    by (cases "from_delete_eq sb i (remote s)")
  with f have "failed out" by simp
  with assms q show "isl (fst (deleteObservation sb e i s))"
    and "queue (snd (deleteObservation sb e i s)) = queue s"
    and "cache (snd (deleteObservation sb e i s)) = cache s"
    by (cases out; auto simp: deleteObservation_def await_def Let_def split: option.splits)+
qed

text \<open>
  A client whose insert replies with an error and whose other writes reject.
\<close>

theorem online_failure_is_thrown_witness:
  "onLine (env_of True 7)
   \<and> isl (fst (saveObservation
        (fixed_client (Some ''u1'') (Rejects ''down'') (Resolves None (Some ''boom'')) (Rejects ''down''))
        (env_of True 7) (sample_obs [] ''Merle noir'') (state_of [] [sample_obs ''a'' ''Pie''])))
   \<and> cache (snd (updateObservation
        (fixed_client (Some ''u1'') (Rejects ''down'') (Resolves None (Some ''boom'')) (Rejects ''down''))
        (env_of True 7) (sample_obs ''a'' ''Geai'') (state_of [] [sample_obs ''a'' ''Pie''])))
       = [sample_obs ''a'' ''Pie'']
   \<and> queue (snd (deleteObservation
        (fixed_client (Some ''u1'') (Rejects ''down'') (Resolves None (Some ''boom'')) (Rejects ''down''))
        (env_of True 7) ''a'' (state_of [] [sample_obs ''a'' ''Pie'']))) = []"
  using online_failure_is_thrown [of "env_of True 7"
      "fixed_client (Some ''u1'') (Rejects ''down'') (Resolves None (Some ''boom'')) (Rejects ''down'')"
      "sample_obs [] ''Merle noir''" "state_of [] [sample_obs ''a'' ''Pie'']" "''a''"]
    online_failure_is_thrown [of "env_of True 7"
      "fixed_client (Some ''u1'') (Rejects ''down'') (Resolves None (Some ''boom'')) (Rejects ''down'')"
      "sample_obs ''a'' ''Geai''" "state_of [] [sample_obs ''a'' ''Pie'']" "''a''"]
  by (simp add: env_of_def fixed_client_def state_of_def)

subsection \<open>The drain\<close>

text \<open>
  C9. Online, with a pending log that is not empty and no user, \<^verbatim>\<open>processOfflineQueue\<close>
  returns and the state is the one it started from: the log, the cache, the store and the
  list of queries sent (\<^verbatim>\<open>auth.getUser\<close> is a call of the authentication layer, not a query
  of the store).
\<close>

theorem processOfflineQueue_no_user:
  assumes "onLine e" and "queue s \<noteq> []" and "auth_getUser sb (remote s) = None"
  shows "processOfflineQueue sb e s = (Inr (), s)"
  using assms by (simp add: processOfflineQueue_def)

text \<open>
  A queued delete and no user.
\<close>

theorem processOfflineQueue_no_user_witness:
  "onLine (env_of True 7)
   \<and> processOfflineQueue (fixed_client None (Rejects ''down'') (Rejects ''down'') (Rejects ''down''))
       (env_of True 7)
       (state_of [\<lparr> action = DELETE, payload = IdOnly ''a'', timestamp = 3 \<rparr>]
          [sample_obs ''b'' ''Pie''])
     = (Inr (), state_of [\<lparr> action = DELETE, payload = IdOnly ''a'', timestamp = 3 \<rparr>]
          [sample_obs ''b'' ''Pie''])"
  using processOfflineQueue_no_user [of "env_of True 7"
      "state_of [\<lparr> action = DELETE, payload = IdOnly ''a'', timestamp = 3 \<rparr>] [sample_obs ''b'' ''Pie'']"
      "fixed_client None (Rejects ''down'') (Rejects ''down'') (Rejects ''down'')"]
  by (simp add: env_of_def fixed_client_def state_of_def)

lemma await_ignoring_reply_frame:
  "await_ignoring_reply q c s = (r, s1)
    \<Longrightarrow> cache s1 = cache s \<and> queue s1 = queue s \<and> calls s1 = calls s @ [c]"
  by (auto simp: await_ignoring_reply_def await_def split: prod.splits outcome.splits)

lemma try_item_frame:
  "try_item sb e uid item s = (r, s1)
    \<Longrightarrow> cache s1 = cache s \<and> queue s1 = queue s
      \<and> (\<exists>cs. calls s1 = calls s @ cs \<and> Select \<notin> set cs)"
  by (auto simp: try_item_def split: action.splits sum.splits option.splits if_splits
      dest!: await_ignoring_reply_frame)

lemma drain_loop_frame:
  "drain_loop sb e uid items newQueue s = (newQueue', s1)
    \<Longrightarrow> cache s1 = cache s \<and> queue s1 = queue s
      \<and> (\<exists>cs. calls s1 = calls s @ cs \<and> Select \<notin> set cs)"
proof (induction items arbitrary: newQueue s)
  case Nil
  then show ?case by simp
next
  case (Cons item rest)
  obtain r s0 where t: "try_item sb e uid item s = (r, s0)"
    by (cases "try_item sb e uid item s")
  from try_item_frame [OF t] obtain cs0 where
    f0: "cache s0 = cache s" "queue s0 = queue s" "calls s0 = calls s @ cs0" "Select \<notin> set cs0"
    by blast
  from Cons.prems t obtain nq where d: "drain_loop sb e uid rest nq s0 = (newQueue', s1)"
    by (cases r) auto
  from Cons.IH [OF d] obtain cs1 where
    f1: "cache s1 = cache s0" "queue s1 = queue s0" "calls s1 = calls s0 @ cs1" "Select \<notin> set cs1"
    by blast
  from f0 f1 have "calls s1 = calls s @ (cs0 @ cs1) \<and> Select \<notin> set (cs0 @ cs1)"
    by simp
  with f0 f1 show ?case by metis
qed

text \<open>
  What the INSERT branch does for a queued record, whatever its id: with no global \<^verbatim>\<open>id\<close>
  it throws before any query; with one, the query sent is chosen by that global.
\<close>

lemma try_item_insert_unbound:
  "action item = INSERT \<Longrightarrow> payload item = Obs obs \<Longrightarrow> global_id e = None
    \<Longrightarrow> try_item sb e uid item s = (Some (ReferenceError ''id is not defined''), s)"
  by (simp add: try_item_def)

lemma try_item_insert_bound:
  "action item = INSERT \<Longrightarrow> payload item = Obs obs \<Longrightarrow> global_id e = Some g
    \<Longrightarrow> calls (snd (try_item sb e uid item s)) =
          calls s @ [if startsWith g ''temp-'' then Insert (mapToRow obs uid)
                     else Upsert [mapToRow obs uid]]"
  by (simp add: try_item_def await_ignoring_reply_def await_def split: prod.splits outcome.splits)

text \<open>
  The items kept by the loop are appended to \<^verbatim>\<open>newQueue\<close> in the order of the queue: the list
  stored is a subsequence of the old log.
\<close>

lemma drain_loop_subseq:
  "drain_loop sb e uid items newQueue s = (newQueue', s1)
    \<Longrightarrow> \<exists>kept. newQueue' = newQueue @ kept \<and> subseq kept items"
proof (induction items arbitrary: newQueue s)
  case Nil
  then show ?case by simp
next
  case (Cons item rest)
  obtain r s0 where t: "try_item sb e uid item s = (r, s0)"
    by (cases "try_item sb e uid item s")
  show ?case
  proof (cases r)
    case None
    with Cons.prems t have "drain_loop sb e uid rest newQueue s0 = (newQueue', s1)"
      by simp
    from Cons.IH [OF this] obtain kept where "newQueue' = newQueue @ kept" "subseq kept rest"
      by blast
    then show ?thesis by auto
  next
    case (Some err)
    with Cons.prems t have "drain_loop sb e uid rest (newQueue @ [item]) s0 = (newQueue', s1)"
      by simp
    from Cons.IH [OF this] obtain kept where
      "newQueue' = (newQueue @ [item]) @ kept" "subseq kept rest"
      by blast
    then have "newQueue' = newQueue @ (item # kept) \<and> subseq (item # kept) (item # rest)"
      by simp
    then show ?thesis by blast
  qed
qed

text \<open>
  C1 fails on the code. The condition of the INSERT branch reads the identifier \<^verbatim>\<open>id\<close>,
  which nothing binds: the drain of two queued inserts, one with a placeholder id and one
  with an id of the store, sends no query at all and keeps both items. On a page that
  defines a global \<^verbatim>\<open>id\<close>, the branch taken depends on that global and not on the record:
  the record with the placeholder id goes out as an upsert.
\<close>

theorem drain_insert_not_submitted:
  "processOfflineQueue
     (fixed_client (Some ''u1'') (Resolves (Some []) None) (Rejects ''unused'') (Resolves None None))
     (env_of True 7)
     (state_of [\<lparr> action = INSERT, payload = Obs (sample_obs ''temp-42'' ''Merle noir''),
                  timestamp = 43 \<rparr>,
                \<lparr> action = INSERT, payload = Obs (sample_obs ''0b6f2c1e'' ''Pie''),
                  timestamp = 44 \<rparr>]
        [sample_obs ''temp-42'' ''Merle noir''])
   = (Inr (),
      state_of [\<lparr> action = INSERT, payload = Obs (sample_obs ''temp-42'' ''Merle noir''),
                  timestamp = 43 \<rparr>,
                \<lparr> action = INSERT, payload = Obs (sample_obs ''0b6f2c1e'' ''Pie''),
                  timestamp = 44 \<rparr>]
        [sample_obs ''temp-42'' ''Merle noir''])
   \<and> calls (snd (processOfflineQueue
       (fixed_client (Some ''u1'') (Resolves (Some []) None) (Rejects ''unused'') (Resolves None None))
       \<lparr> onLine = True, dateNow = (\<lambda>k. 7), global_id = Some ''main'' \<rparr>
       (state_of [\<lparr> action = INSERT, payload = Obs (sample_obs ''temp-42'' ''Merle noir''),
                    timestamp = 43 \<rparr>]
          [sample_obs ''temp-42'' ''Merle noir''])))
     = [Upsert [mapToRow (sample_obs ''temp-42'' ''Merle noir'') ''u1''], Select]"
  by (simp add: env_of_def fixed_client_def state_of_def processOfflineQueue_def try_item_def
      await_ignoring_reply_def await_def startsWith_def setLocalCache_def Let_def)

text \<open>
  C3 fails on the code. A queued update whose query replies with an error is dropped from
  the log; and over a store where every query succeeds, a queued insert is never sent and
  stays in the log, while the delete queued after it is sent.
\<close>

theorem drain_log_not_exactly_failures:
  "queue (snd (processOfflineQueue
       (fixed_client (Some ''u1'') (Resolves (Some []) None) (Rejects ''unused'')
          (Resolves None (Some ''permission denied'')))
       (env_of True 7)
       (state_of [\<lparr> action = UPDATE, payload = Obs (sample_obs ''a'' ''Pie''), timestamp = 3 \<rparr>]
          [sample_obs ''a'' ''Pie'']))) = []
   \<and> processOfflineQueue
       (fixed_client (Some ''u1'') (Resolves (Some []) None) (Rejects ''unused'') (Resolves None None))
       (env_of True 7)
       (state_of [\<lparr> action = INSERT, payload = Obs (sample_obs ''temp-42'' ''Merle noir''),
                    timestamp = 43 \<rparr>,
                  \<lparr> action = DELETE, payload = IdOnly ''a'', timestamp = 44 \<rparr>]
          [sample_obs ''temp-42'' ''Merle noir''])
     = (Inr (),
        (state_of [\<lparr> action = INSERT, payload = Obs (sample_obs ''temp-42'' ''Merle noir''),
                    timestamp = 43 \<rparr>]
          [sample_obs ''temp-42'' ''Merle noir''])\<lparr> calls := [Delete ''a''] \<rparr>)"
  by (simp add: env_of_def fixed_client_def state_of_def processOfflineQueue_def try_item_def
      await_ignoring_reply_def await_def setLocalCache_def Let_def)

text \<open>
  C4 as stated fails. Every queued item succeeded and the stored log is empty; the select
  was sent and replied without data; the local cache is still the one before the drain.
\<close>

theorem drain_refresh_gating_counterexample:
  "processOfflineQueue
     (fixed_client (Some ''u1'') (Resolves None (Some ''timeout'')) (Rejects ''unused'')
        (Resolves None None))
     (env_of True 7)
     (state_of [\<lparr> action = DELETE, payload = IdOnly ''a'', timestamp = 3 \<rparr>]
        [sample_obs ''b'' ''Pie''])
   = (Inr (), (state_of [] [sample_obs ''b'' ''Pie''])\<lparr> calls := [Delete ''a'', Select] \<rparr>)"
  by (simp add: env_of_def fixed_client_def state_of_def processOfflineQueue_def try_item_def
      await_ignoring_reply_def await_def Let_def)

text \<open>
  C4, amended. For a drain that runs (online, a pending log that is not empty, a user):
  the log stored is the list of the items kept; the select is sent if and only if that
  list is empty; the local cache is overwritten with the fetched records if and only if
  the list is empty and the select replied with data, and is the cache from before the
  drain in every other case.
\<close>

theorem drain_refresh_gating:
  assumes "onLine e" and "queue s \<noteq> []" and "auth_getUser sb (remote s) = Some uid"
    and "drain_loop sb e uid (queue s) [] s = (newQueue, s1)"
    and "from_select sb (remote s1) = (out, r')"
  shows "queue (snd (processOfflineQueue sb e s)) = newQueue
       \<and> cache (snd (processOfflineQueue sb e s)) =
           (case (newQueue, out) of
              ([], Resolves (Some rows) err) \<Rightarrow> map mapToObservation rows
            | _ \<Rightarrow> cache s)
       \<and> (Select \<in> set (drop (length (calls s)) (calls (snd (processOfflineQueue sb e s))))
            \<longleftrightarrow> newQueue = [])"
proof -
  from drain_loop_frame [OF assms(4)] obtain cs where
    f: "cache s1 = cache s" "calls s1 = calls s @ cs" "Select \<notin> set cs"
    by blast
  show ?thesis
  proof (cases "newQueue = []")
    case False
    with assms f show ?thesis
      by (auto simp: processOfflineQueue_def Let_def split: list.splits)
  next
    case True
    with assms f show ?thesis
      by (cases out)
         (auto simp: processOfflineQueue_def Let_def await_def setLocalCache_def
            split: option.splits)
  qed
qed

text \<open>
  One queued delete: when it succeeds the cache becomes the fetched row; when it rejects
  the item stays and the cache is the one before.
\<close>

theorem drain_refresh_gating_witness:
  "cache (snd (processOfflineQueue
       (fixed_client (Some ''u1'') (Resolves (Some [sample_row ''s1'' ''Pie'']) None)
          (Rejects ''unused'') (Resolves None None))
       (env_of True 7)
       (state_of [\<lparr> action = DELETE, payload = IdOnly ''a'', timestamp = 3 \<rparr>]
          [sample_obs ''b'' ''Geai''])))
     = [mapToObservation (sample_row ''s1'' ''Pie'')]
   \<and> cache (snd (processOfflineQueue
       (fixed_client (Some ''u1'') (Resolves (Some [sample_row ''s1'' ''Pie'']) None)
          (Rejects ''unused'') (Rejects ''down''))
       (env_of True 7)
       (state_of [\<lparr> action = DELETE, payload = IdOnly ''a'', timestamp = 3 \<rparr>]
          [sample_obs ''b'' ''Geai''])))
     = [sample_obs ''b'' ''Geai'']"
proof -
  let ?ok = "fixed_client (Some ''u1'') (Resolves (Some [sample_row ''s1'' ''Pie'']) None)
          (Rejects ''unused'') (Resolves None None)"
  let ?ko = "fixed_client (Some ''u1'') (Resolves (Some [sample_row ''s1'' ''Pie'']) None)
          (Rejects ''unused'') (Rejects ''down'')"
  let ?item = "\<lparr> action = DELETE, payload = IdOnly ''a'', timestamp = 3 \<rparr>"
  let ?s = "state_of [?item] [sample_obs ''b'' ''Geai'']"
  have h1: "onLine (env_of True 7)"
    by (simp add: env_of_def)
  have h2: "queue ?s \<noteq> []"
    by (simp add: state_of_def)
  have u_ok: "auth_getUser ?ok (remote ?s) = Some ''u1''"
    and u_ko: "auth_getUser ?ko (remote ?s) = Some ''u1''"
    by (simp_all add: fixed_client_def)
  have d_ok: "drain_loop ?ok (env_of True 7) ''u1'' (queue ?s) [] ?s
      = ([], ?s\<lparr> calls := [Delete ''a''] \<rparr>)"
    by (simp add: state_of_def fixed_client_def try_item_def await_ignoring_reply_def await_def)
  have d_ko: "drain_loop ?ko (env_of True 7) ''u1'' (queue ?s) [] ?s
      = ([?item], ?s\<lparr> calls := [Delete ''a''] \<rparr>)"
    by (simp add: state_of_def fixed_client_def try_item_def await_ignoring_reply_def await_def)
  have sel_ok: "from_select ?ok (remote (?s\<lparr> calls := [Delete ''a''] \<rparr>))
      = (Resolves (Some [sample_row ''s1'' ''Pie'']) None, ())"
    and sel_ko: "from_select ?ko (remote (?s\<lparr> calls := [Delete ''a''] \<rparr>))
      = (Resolves (Some [sample_row ''s1'' ''Pie'']) None, ())"
    by (simp_all add: fixed_client_def)
  from drain_refresh_gating [OF h1 h2 u_ok d_ok sel_ok]
  have a: "cache (snd (processOfflineQueue ?ok (env_of True 7) ?s))
      = [mapToObservation (sample_row ''s1'' ''Pie'')]"
    by simp
  from drain_refresh_gating [OF h1 h2 u_ko d_ko sel_ko]
  have b: "cache (snd (processOfflineQueue ?ko (env_of True 7) ?s)) = [sample_obs ''b'' ''Geai'']"
    by (simp add: state_of_def)
  from a b show ?thesis by blast
qed

subsection \<open>The merge of an import\<close>

lemma mergeStep_Nil: "mergeStep [] newObs = [newObs]"
  by (simp add: mergeStep_def)

lemma mergeStep_Cons:
  "mergeStep (x # xs) newObs =
     (if observation.id' x = observation.id' newObs then newObs # xs
      else x # mergeStep xs newObs)"
  by (simp add: mergeStep_def split: option.splits)

lemma mergeStep_match:
  "observation.id' newObs \<in> set (map observation.id' merged)
    \<Longrightarrow> \<exists>index < length merged.
          observation.id' (merged ! index) = observation.id' newObs
        \<and> (\<forall>j < index. observation.id' (merged ! j) \<noteq> observation.id' newObs)
        \<and> mergeStep merged newObs = merged[index := newObs]"
proof (induction merged)
  case Nil
  then show ?case by simp
next
  case (Cons x xs)
  show ?case
  proof (cases "observation.id' x = observation.id' newObs")
    case True
    then have "mergeStep (x # xs) newObs = (x # xs)[0 := newObs]"
      by (simp add: mergeStep_Cons)
    with True show ?thesis by fastforce
  next
    case False
    with Cons.prems have "observation.id' newObs \<in> set (map observation.id' xs)"
      by auto
    from Cons.IH [OF this] obtain k where k: "k < length xs"
      "observation.id' (xs ! k) = observation.id' newObs"
      "\<forall>j < k. observation.id' (xs ! j) \<noteq> observation.id' newObs"
      "mergeStep xs newObs = xs[k := newObs]"
      by blast
    have "\<forall>j < Suc k. observation.id' ((x # xs) ! j) \<noteq> observation.id' newObs"
    proof (intro allI impI)
      fix j assume "j < Suc k"
      with False k(3) show "observation.id' ((x # xs) ! j) \<noteq> observation.id' newObs"
        by (cases j) auto
    qed
    moreover from False k(4) have "mergeStep (x # xs) newObs = (x # xs)[Suc k := newObs]"
      by (simp add: mergeStep_Cons)
    ultimately show ?thesis using k(1,2)
      by (intro exI [of _ "Suc k"]) simp
  qed
qed

lemma mergeStep_no_match:
  "observation.id' newObs \<notin> set (map observation.id' merged)
    \<Longrightarrow> mergeStep merged newObs = merged @ [newObs]"
  by (induction merged) (auto simp: mergeStep_Nil mergeStep_Cons)

lemma find_mergeStep:
  "find (\<lambda>obs. observation.id' obs = i) (mergeStep merged newObs) =
     (if observation.id' newObs = i then Some newObs
      else find (\<lambda>obs. observation.id' obs = i) merged)"
  by (induction merged) (auto simp: mergeStep_Nil mergeStep_Cons)

lemma ids_mergeStep:
  "map observation.id' (mergeStep merged newObs) =
     (if observation.id' newObs \<in> set (map observation.id' merged)
      then map observation.id' merged
      else map observation.id' merged @ [observation.id' newObs])"
  by (induction merged) (auto simp: mergeStep_Nil mergeStep_Cons)

lemma mergeObservations_snoc:
  "mergeObservations observations (imported @ [newObs]) =
     mergeStep (mergeObservations observations imported) newObs"
  by (simp add: mergeObservations_def)

lemma find_mergeObservations:
  "find (\<lambda>obs. observation.id' obs = i) (mergeObservations observations imported) =
     (case find (\<lambda>obs. observation.id' obs = i) (rev imported) of
        Some newObs \<Rightarrow> Some newObs
      | None \<Rightarrow> find (\<lambda>obs. observation.id' obs = i) observations)"
proof (induction imported rule: rev_induct)
  case Nil
  then show ?case by (simp add: mergeObservations_def)
next
  case (snoc newObs imported)
  then show ?case
    by (simp add: mergeObservations_snoc find_mergeStep)
qed

lemma unique_ids_mergeObservations:
  "unique_ids observations \<Longrightarrow> unique_ids (mergeObservations observations imported)"
proof (induction imported rule: rev_induct)
  case Nil
  then show ?case by (simp add: mergeObservations_def)
next
  case (snoc newObs imported)
  then show ?case
    by (simp add: mergeObservations_snoc unique_ids_def ids_mergeStep)
qed

lemma ids_mergeObservations:
  "set (map observation.id' (mergeObservations observations imported)) =
     set (map observation.id' observations) \<union> set (map observation.id' imported)"
proof (induction imported rule: rev_induct)
  case Nil
  then show ?case by (simp add: mergeObservations_def)
next
  case (snoc newObs imported)
  have "set (map observation.id' (mergeObservations observations (imported @ [newObs]))) =
      insert (observation.id' newObs)
        (set (map observation.id' (mergeObservations observations imported)))"
    by (auto simp: mergeObservations_snoc ids_mergeStep)
  with snoc show ?case by auto
qed

text \<open>
  C5. The merge of an import is a fold from left to right of the imported list over the
  current list: the merge of nothing is the current list, and a further record is merged
  into the merge of those before it. A record whose id an entry has replaces the entry at
  that index, whole; a record whose id no entry has is appended. Looked up by id, the
  result holds the last imported record of that id, or the current record when none was
  imported. Unique ids stay unique, and the ids of the result are those of both lists.
  Importing one record over a list of one record with the same id gives that one record;
  and when the handler succeeds, the list it shows is the merge.
\<close>

theorem import_merge_last_write_wins:
  "mergeObservations observations [] = observations
   \<and> mergeObservations observations (imported @ [newObs]) =
       mergeStep (mergeObservations observations imported) newObs
   \<and> (observation.id' newObs \<in> set (map observation.id' merged)
        \<longrightarrow> (\<exists>index < length merged.
               observation.id' (merged ! index) = observation.id' newObs
             \<and> mergeStep merged newObs = merged[index := newObs]))
   \<and> (observation.id' newObs \<notin> set (map observation.id' merged)
        \<longrightarrow> mergeStep merged newObs = merged @ [newObs])
   \<and> find (\<lambda>obs. observation.id' obs = i) (mergeObservations observations imported) =
       (case find (\<lambda>obs. observation.id' obs = i) (rev imported) of
          Some lastObs \<Rightarrow> Some lastObs
        | None \<Rightarrow> find (\<lambda>obs. observation.id' obs = i) observations)
   \<and> (unique_ids observations \<longrightarrow> unique_ids (mergeObservations observations imported))
   \<and> set (map observation.id' (mergeObservations observations imported)) =
       set (map observation.id' observations) \<union> set (map observation.id' imported)
   \<and> (observation.id' x = observation.id' y \<longrightarrow> mergeObservations [y] [x] = [x])
   \<and> (fst (handleImportRequest sb observations imported s) = Inr shown
        \<longrightarrow> shown = mergeObservations observations imported)"
proof (intro conjI)
  show "mergeObservations observations [] = observations"
    by (simp add: mergeObservations_def)
  show "mergeObservations observations (imported @ [newObs]) =
      mergeStep (mergeObservations observations imported) newObs"
    by (rule mergeObservations_snoc)
  show "observation.id' newObs \<in> set (map observation.id' merged)
      \<longrightarrow> (\<exists>index < length merged.
             observation.id' (merged ! index) = observation.id' newObs
           \<and> mergeStep merged newObs = merged[index := newObs])"
    using mergeStep_match [of newObs merged] by blast
  show "observation.id' newObs \<notin> set (map observation.id' merged)
      \<longrightarrow> mergeStep merged newObs = merged @ [newObs]"
    using mergeStep_no_match [of newObs merged] by blast
  show "find (\<lambda>obs. observation.id' obs = i) (mergeObservations observations imported) =
      (case find (\<lambda>obs. observation.id' obs = i) (rev imported) of
         Some lastObs \<Rightarrow> Some lastObs
       | None \<Rightarrow> find (\<lambda>obs. observation.id' obs = i) observations)"
    by (rule find_mergeObservations)
  show "unique_ids observations \<longrightarrow> unique_ids (mergeObservations observations imported)"
    using unique_ids_mergeObservations by blast
  show "set (map observation.id' (mergeObservations observations imported)) =
      set (map observation.id' observations) \<union> set (map observation.id' imported)"
    by (rule ids_mergeObservations)
  show "observation.id' x = observation.id' y \<longrightarrow> mergeObservations [y] [x] = [x]"
    by (simp add: mergeObservations_def mergeStep_Cons)
  show "fst (handleImportRequest sb observations imported s) = Inr shown
      \<longrightarrow> shown = mergeObservations observations imported"
    by (auto simp: handleImportRequest_def Let_def split: prod.splits sum.splits)
qed

text \<open>
  The example of the specification and a batch that holds the id \<^verbatim>\<open>1\<close> twice.
\<close>

theorem import_merge_last_write_wins_witness:
  "mergeObservations [sample_obs ''1'' ''Y''] [sample_obs ''1'' ''X''] = [sample_obs ''1'' ''X'']
   \<and> mergeStep [sample_obs ''1'' ''Y''] (sample_obs ''2'' ''Z'')
       = [sample_obs ''1'' ''Y'', sample_obs ''2'' ''Z'']
   \<and> mergeStep [sample_obs ''1'' ''Y''] (sample_obs ''1'' ''X'') = [sample_obs ''1'' ''X'']
   \<and> unique_ids (mergeObservations [sample_obs ''1'' ''Y'']
        [sample_obs ''1'' ''W'', sample_obs ''2'' ''Z'', sample_obs ''1'' ''X''])
   \<and> find (\<lambda>obs. observation.id' obs = ''1'') (mergeObservations [sample_obs ''1'' ''Y'']
        [sample_obs ''1'' ''W'', sample_obs ''2'' ''Z'', sample_obs ''1'' ''X''])
       = Some (sample_obs ''1'' ''X'')
   \<and> fst (handleImportRequest
        (fixed_client (Some ''u1'') (Rejects ''unused'') (Rejects ''unused'') (Resolves None None))
        [sample_obs ''1'' ''Y''] [sample_obs ''1'' ''X''] (state_of [] []))
       = Inr [sample_obs ''1'' ''X'']"
proof -
  let ?Y = "sample_obs ''1'' ''Y''" and ?X = "sample_obs ''1'' ''X''"
  let ?W = "sample_obs ''1'' ''W''" and ?Z = "sample_obs ''2'' ''Z''"
  let ?c = "fixed_client (Some ''u1'') (Rejects ''unused'') (Rejects ''unused'') (Resolves None None)"
  have same: "observation.id' ?X = observation.id' ?Y"
    by (simp add: sample_obs_def)
  have inn: "observation.id' ?X \<in> set (map observation.id' [?Y])"
    by (simp add: sample_obs_def)
  have out: "observation.id' ?Z \<notin> set (map observation.id' [?Y])"
    by (simp add: sample_obs_def)
  have uq: "unique_ids [?Y]"
    by (simp add: unique_ids_def)
  have ok: "fst (handleImportRequest ?c [?Y] [?X] (state_of [] [])) = Inr (mergeObservations [?Y] [?X])"
    by (simp add: handleImportRequest_def syncObservations_def fixed_client_def state_of_def
        await_def Let_def)
  note t1 = import_merge_last_write_wins [where observations = "[?Y]" and imported = "[?W, ?Z, ?X]"
      and merged = "[?Y]" and newObs = ?Z and x = ?X and y = ?Y and i = "''1''"
      and sb = ?c and s = "state_of [] []" and shown = "[]"]
  note t2 = import_merge_last_write_wins [where observations = "[?Y]" and imported = "[]"
      and merged = "[?Y]" and newObs = ?X and x = ?X and y = ?Y and i = "''1''"
      and sb = ?c and s = "state_of [] []" and shown = "[]"]
  from t1 same have a: "mergeObservations [?Y] [?X] = [?X]" by blast
  from t1 out have b: "mergeStep [?Y] ?Z = [?Y, ?Z]" by (elim conjE) simp
  from t2 inn have "\<exists>index < length [?Y]. mergeStep [?Y] ?X = [?Y][index := ?X]"
    by (elim conjE) blast
  then have c: "mergeStep [?Y] ?X = [?X]" by auto
  from t1 uq have d: "unique_ids (mergeObservations [?Y] [?W, ?Z, ?X])" by blast
  from t1 have e: "find (\<lambda>obs. observation.id' obs = ''1'') (mergeObservations [?Y] [?W, ?Z, ?X])
      = Some ?X"
    by (simp add: sample_obs_def)
  from ok a have f: "fst (handleImportRequest ?c [?Y] [?X] (state_of [] [])) = Inr [?X]"
    by simp
  from a b c d e f show ?thesis by blast
qed

subsection \<open>Unique ids in the local cache\<close>

lemma ids_replaceById:
  "map observation.id' (replaceById observation currentCache) = map observation.id' currentCache"
  by (induction currentCache) (simp_all add: replaceById_def)

lemma unique_ids_removeById:
  "unique_ids currentCache \<Longrightarrow> unique_ids (removeById i currentCache)"
  by (simp add: unique_ids_def removeById_def distinct_map_filter)

lemma ids_mapToObservation:
  "map observation.id' (map mapToObservation rows) = map db_row.id' rows"
  by (simp add: mapToObservation_def)

lemma getObservations_cache:
  "cache (snd (getObservations sb e s)) = cache s
   \<or> (\<exists>rows err r r'. from_select sb r = (Resolves (Some rows) err, r')
        \<and> cache (snd (getObservations sb e s)) = map mapToObservation rows)"
proof (cases "onLine e")
  case False
  then show ?thesis by (simp add: getObservations_def)
next
  case True
  obtain out r1 where sel: "from_select sb (remote s) = (out, r1)"
    by (cases "from_select sb (remote s)")
  show ?thesis
  proof (cases out)
    case (Rejects m)
    with True sel show ?thesis
      by (simp add: getObservations_def await_def)
  next
    case (Resolves d err)
    show ?thesis
    proof (cases "\<exists>rows. d = Some rows \<and> err = None")
      case False
      with True sel Resolves show ?thesis
        by (cases d; cases err) (simp_all add: getObservations_def await_def)
    next
      case True
      then obtain rows where "d = Some rows" "err = None" by blast
      with \<open>onLine e\<close> sel Resolves
      have "cache (snd (getObservations sb e s)) = map mapToObservation rows"
        by (simp add: getObservations_def await_def setLocalCache_def Let_def)
      with sel Resolves \<open>d = Some rows\<close> show ?thesis by blast
    qed
  qed
qed

lemma updateObservation_ids:
  "map observation.id' (cache (snd (updateObservation sb e observation s))) =
     map observation.id' (cache s)"
proof -
  let ?row = "mapToRow observation (userId_or_offline (auth_getUser sb (remote s)))"
  obtain out r1 where
    q: "from_update_eq sb ?row (observation.id' observation) (remote s) = (out, r1)"
    by (cases "from_update_eq sb ?row (observation.id' observation) (remote s)")
  show ?thesis
  proof (cases out)
    case (Rejects m)
    with q show ?thesis
      by (simp add: updateObservation_def await_def Let_def getLocalCache_def
          setLocalCache_def addToQueue_def ids_replaceById)
  next
    case (Resolves d err)
    with q show ?thesis
      by (cases err)
         (simp_all add: updateObservation_def await_def Let_def getLocalCache_def
            setLocalCache_def addToQueue_def ids_replaceById)
  qed
qed

lemma deleteObservation_cache:
  "cache (snd (deleteObservation sb e i s)) = cache s
   \<or> cache (snd (deleteObservation sb e i s)) = removeById i (cache s)"
proof -
  obtain out r1 where q: "from_delete_eq sb i (remote s) = (out, r1)"
    by (cases "from_delete_eq sb i (remote s)")
  show ?thesis
  proof (cases out)
    case (Rejects m)
    with q show ?thesis
      by (simp add: deleteObservation_def await_def Let_def getLocalCache_def
          setLocalCache_def addToQueue_def)
  next
    case (Resolves d err)
    with q show ?thesis
      by (cases err)
         (simp_all add: deleteObservation_def await_def Let_def getLocalCache_def
            setLocalCache_def addToQueue_def)
  qed
qed

lemma syncObservations_frame:
  "cache (snd (syncObservations sb observations s)) = cache s
   \<and> queue (snd (syncObservations sb observations s)) = queue s"
  by (auto simp: syncObservations_def await_def Let_def
      split: option.splits prod.splits outcome.splits)

lemma handleImportRequest_frame:
  "cache (snd (handleImportRequest sb observations imported s)) = cache s
   \<and> queue (snd (handleImportRequest sb observations imported s)) = queue s"
proof -
  let ?m = "mergeObservations observations imported"
  obtain res s1 where q: "syncObservations sb ?m s = (res, s1)"
    by (cases "syncObservations sb ?m s")
  with syncObservations_frame [of sb ?m s] have "cache s1 = cache s \<and> queue s1 = queue s"
    by simp
  with q show ?thesis
    by (cases res) (simp_all add: handleImportRequest_def Let_def)
qed

lemma processOfflineQueue_cache:
  "cache (snd (processOfflineQueue sb e s)) = cache s
   \<or> (\<exists>rows err r r'. from_select sb r = (Resolves (Some rows) err, r')
        \<and> cache (snd (processOfflineQueue sb e s)) = map mapToObservation rows)"
proof (cases "onLine e \<and> queue s \<noteq> [] \<and> auth_getUser sb (remote s) \<noteq> None")
  case False
  then show ?thesis
    by (auto simp: processOfflineQueue_def)
next
  case True
  then obtain uid where u: "auth_getUser sb (remote s) = Some uid" by blast
  obtain newQueue s1 where d: "drain_loop sb e uid (queue s) [] s = (newQueue, s1)"
    by (cases "drain_loop sb e uid (queue s) [] s")
  from drain_loop_frame [OF d] have c1: "cache s1 = cache s" by blast
  obtain out r1 where sel: "from_select sb (remote s1) = (out, r1)"
    by (cases "from_select sb (remote s1)")
  show ?thesis
  proof (cases "newQueue = []")
    case False
    with True u d c1 show ?thesis
      by (auto simp: processOfflineQueue_def Let_def)
  next
    case nq: True
    show ?thesis
    proof (cases out)
      case (Rejects m)
      with True u d c1 sel nq show ?thesis
        by (simp add: processOfflineQueue_def Let_def await_def)
    next
      case (Resolves dat err)
      show ?thesis
      proof (cases dat)
        case None
        with True u d c1 sel nq Resolves show ?thesis
          by (simp add: processOfflineQueue_def Let_def await_def)
      next
        case (Some rows)
        with True u d c1 sel nq Resolves
        have "cache (snd (processOfflineQueue sb e s)) = map mapToObservation rows"
          by (simp add: processOfflineQueue_def Let_def await_def setLocalCache_def)
        with sel Resolves Some show ?thesis by blast
      qed
    qed
  qed
qed

lemma unique_ids_fetched:
  "select_unique sb \<Longrightarrow> from_select sb r = (Resolves (Some rows) err, r')
    \<Longrightarrow> unique_ids (map mapToObservation rows)"
  unfolding select_unique_def unique_ids_def ids_mapToObservation by blast

text \<open>
  The decimal print of a number determines the number, so two placeholders are equal only
  when their clock readings are.
\<close>

lemma string_of_nat_nonempty: "string_of_nat n \<noteq> []"
  by (subst string_of_nat.simps) simp

lemma digit_char_inj:
  assumes "a < 10" and "b < 10" and "(char_of (48 + a) :: char) = char_of (48 + b)"
  shows "a = (b::nat)"
proof -
  from assms(3) have "(48 + a) mod 256 = (48 + b) mod 256"
    by (simp add: char_of_eq_iff take_bit_eq_mod)
  with assms(1,2) show ?thesis by simp
qed

lemma string_of_nat_inj: "string_of_nat m = string_of_nat n \<Longrightarrow> m = n"
proof (induction m arbitrary: n rule: less_induct)
  case (less m)
  show ?case
  proof (cases "m < 10")
    case m: True
    show ?thesis
    proof (cases "n < 10")
      case True
      with m less.prems have "(char_of (48 + m) :: char) = char_of (48 + n)"
        by (simp add: string_of_nat.simps [of m] string_of_nat.simps [of n])
      with m True show ?thesis by (rule digit_char_inj)
    next
      case False
      with m less.prems have "[char_of (48 + m)] = string_of_nat (n div 10) @ [char_of (48 + n mod 10)]"
        by (simp add: string_of_nat.simps [of m] string_of_nat.simps [of n])
      then have "string_of_nat (n div 10) = []" by simp
      with string_of_nat_nonempty show ?thesis by blast
    qed
  next
    case m: False
    show ?thesis
    proof (cases "n < 10")
      case True
      with m less.prems have "string_of_nat (m div 10) @ [char_of (48 + m mod 10)] = [char_of (48 + n)]"
        by (simp add: string_of_nat.simps [of m] string_of_nat.simps [of n])
      then have "string_of_nat (m div 10) = []" by simp
      with string_of_nat_nonempty show ?thesis by blast
    next
      case False
      with m less.prems have eq: "string_of_nat (m div 10) = string_of_nat (n div 10)"
        and ch: "(char_of (48 + m mod 10) :: char) = char_of (48 + n mod 10)"
        by (simp_all add: string_of_nat.simps [of m] string_of_nat.simps [of n])
      from m have "m div 10 < m" by simp
      from less.IH [OF this eq] have d: "m div 10 = n div 10" .
      have "m mod 10 = n mod 10"
        using ch by (intro digit_char_inj) simp_all
      with d show ?thesis
        by (metis div_mult_mod_eq)
    qed
  qed
qed

lemma placeholder_inj:
  "''temp-'' @ string_of_nat m = ''temp-'' @ string_of_nat n \<Longrightarrow> m = n"
  by (simp add: string_of_nat_inj)

lemma placeholder_startsWith: "startsWith (''temp-'' @ x) ''temp-''"
  by (simp add: startsWith_def)

text \<open>
  What a create prepends to the cache: offline, the record with its own id or with the
  placeholder of the first clock reading; online, the row the store answered with, or
  nothing.
\<close>

lemma saveObservation_offline_cache:
  "\<not> onLine e \<Longrightarrow>
    cache (snd (saveObservation sb e observation s)) =
      observation\<lparr> observation.id' :=
        (if observation.id' observation \<noteq> [] then observation.id' observation
         else ''temp-'' @ string_of_nat (dateNow e 0)) \<rparr> # cache s"
  by (simp add: saveObservation_def Let_def getLocalCache_def setLocalCache_def addToQueue_def)

lemma saveObservation_online_cache:
  assumes "onLine e"
  shows "cache (snd (saveObservation sb e observation s)) = cache s
       \<or> (\<exists>row. fst (from_insert_select_single sb
                    (mapToRow observation (userId_or_offline (auth_getUser sb (remote s))))
                    (remote s)) = Resolves (Some row) None
              \<and> cache (snd (saveObservation sb e observation s)) = mapToObservation row # cache s)"
proof -
  let ?row = "mapToRow observation (userId_or_offline (auth_getUser sb (remote s)))"
  obtain out r1 where q: "from_insert_select_single sb ?row (remote s) = (out, r1)"
    by (cases "from_insert_select_single sb ?row (remote s)")
  show ?thesis
  proof (cases out)
    case (Rejects m)
    with assms q show ?thesis
      by (simp add: saveObservation_def await_def Let_def)
  next
    case (Resolves d err)
    with assms q show ?thesis
      by (cases d; cases err)
         (simp_all add: saveObservation_def await_def Let_def getLocalCache_def
            setLocalCache_def)
  qed
qed

text \<open>
  A cache overwritten from the store holds unique ids and no placeholder.
\<close>

lemma fetched_inv:
  assumes "select_unique sb" and "select_no_temp sb"
    and "from_select sb r = (Resolves (Some rows) err, r')"
  shows "unique_ids (map mapToObservation rows)
       \<and> (\<forall>x. ''temp-'' @ x \<notin> set (map observation.id' (map mapToObservation rows)))"
proof
  from assms(1,3) show "unique_ids (map mapToObservation rows)"
    by (rule unique_ids_fetched)
  from assms(2,3) have nt: "\<forall>row \<in> set rows. \<not> startsWith (db_row.id' row) ''temp-''"
    unfolding select_no_temp_def by blast
  show "\<forall>x. ''temp-'' @ x \<notin> set (map observation.id' (map mapToObservation rows))"
  proof (intro allI notI)
    fix x
    assume "''temp-'' @ x \<in> set (map observation.id' (map mapToObservation rows))"
    then obtain row where "row \<in> set rows" and "db_row.id' row = ''temp-'' @ x"
      unfolding ids_mapToObservation by auto
    with nt placeholder_startsWith [of x] show False by metis
  qed
qed

lemma refreshed_inv:
  assumes u: "unique_ids (cache s)"
    and j: "\<forall>n \<in> N. ''temp-'' @ string_of_nat n \<notin> set (map observation.id' (cache s))"
    and su: "select_unique sb" and st: "select_no_temp sb"
    and c: "c = cache s
          \<or> (\<exists>rows err r r'. from_select sb r = (Resolves (Some rows) err, r')
               \<and> c = map mapToObservation rows)"
  shows "unique_ids c \<and> (\<forall>n \<in> N. ''temp-'' @ string_of_nat n \<notin> set (map observation.id' c))"
  using c
proof
  assume "c = cache s"
  with u j show ?thesis by simp
next
  assume "\<exists>rows err r r'. from_select sb r = (Resolves (Some rows) err, r')
      \<and> c = map mapToObservation rows"
  then obtain rows err r r' where "from_select sb r = (Resolves (Some rows) err, r')"
    and "c = map mapToObservation rows"
    by blast
  with fetched_inv [OF su st, of r rows err r'] show ?thesis by blast
qed

text \<open>
  One step keeps the ids unique and keeps out of the cache every placeholder that a later
  create of the sequence will make.
\<close>

lemma create_step_inv:
  assumes u: "unique_ids (cache s)"
    and j: "\<forall>n \<in> set (placeholder_clocks ((e, OpCreate obs) # xs)).
              ''temp-'' @ string_of_nat n \<notin> set (map observation.id' (cache s))"
    and ok: "create_ok sb (e, OpCreate obs) s"
    and d: "distinct (placeholder_clocks ((e, OpCreate obs) # xs))"
  shows "unique_ids (cache (snd (saveObservation sb e obs s)))
       \<and> (\<forall>n \<in> set (placeholder_clocks xs).
            ''temp-'' @ string_of_nat n
              \<notin> set (map observation.id' (cache (snd (saveObservation sb e obs s)))))"
proof (cases "onLine e")
  case True
  with j have j': "\<forall>n \<in> set (placeholder_clocks xs).
      ''temp-'' @ string_of_nat n \<notin> set (map observation.id' (cache s))"
    by simp
  from saveObservation_online_cache [OF True, of sb obs s] show ?thesis
  proof
    assume "cache (snd (saveObservation sb e obs s)) = cache s"
    with u j' show ?thesis by simp
  next
    assume "\<exists>row. fst (from_insert_select_single sb
          (mapToRow obs (userId_or_offline (auth_getUser sb (remote s)))) (remote s))
            = Resolves (Some row) None
        \<and> cache (snd (saveObservation sb e obs s)) = mapToObservation row # cache s"
    then obtain row where
      r: "fst (from_insert_select_single sb
          (mapToRow obs (userId_or_offline (auth_getUser sb (remote s)))) (remote s))
            = Resolves (Some row) None"
      and c: "cache (snd (saveObservation sb e obs s)) = mapToObservation row # cache s"
      by blast
    from ok True r have fresh: "db_row.id' row \<notin> set (map observation.id' (cache s))"
      and nt: "\<not> startsWith (db_row.id' row) ''temp-''"
      by simp_all
    have i: "observation.id' (mapToObservation row) = db_row.id' row"
      by (simp add: mapToObservation_def)
    from nt have "\<forall>n. ''temp-'' @ string_of_nat n \<noteq> db_row.id' row"
      using placeholder_startsWith by metis
    with u j' c fresh i show ?thesis
      by (auto simp: unique_ids_def)
  qed
next
  case off: False
  show ?thesis
  proof (cases "observation.id' obs = []")
    case False
    with off j have j': "\<forall>n \<in> set (placeholder_clocks xs).
        ''temp-'' @ string_of_nat n \<notin> set (map observation.id' (cache s))"
      by simp
    from ok off False have fresh: "observation.id' obs \<notin> set (map observation.id' (cache s))"
      and nt: "\<not> startsWith (observation.id' obs) ''temp-''"
      by simp_all
    from nt have "\<forall>n. ''temp-'' @ string_of_nat n \<noteq> observation.id' obs"
      using placeholder_startsWith by metis
    with u j' fresh off False show ?thesis
      by (auto simp: unique_ids_def saveObservation_offline_cache)
  next
    case True
    let ?p = "''temp-'' @ string_of_nat (dateNow e 0)"
    from off True have pc: "placeholder_clocks ((e, OpCreate obs) # xs)
        = dateNow e 0 # placeholder_clocks xs"
      by simp
    with j have fresh: "?p \<notin> set (map observation.id' (cache s))"
      and j': "\<forall>n \<in> set (placeholder_clocks xs).
        ''temp-'' @ string_of_nat n \<notin> set (map observation.id' (cache s))"
      by simp_all
    from d pc have "dateNow e 0 \<notin> set (placeholder_clocks xs)" by simp
    then have "\<forall>n \<in> set (placeholder_clocks xs). ''temp-'' @ string_of_nat n \<noteq> ?p"
      using placeholder_inj by blast
    with u j' fresh off True show ?thesis
      by (auto simp: unique_ids_def saveObservation_offline_cache)
  qed
qed

lemma step_inv:
  assumes u: "unique_ids (cache s)"
    and j: "\<forall>n \<in> set (placeholder_clocks (x # xs)).
              ''temp-'' @ string_of_nat n \<notin> set (map observation.id' (cache s))"
    and su: "select_unique sb" and st: "select_no_temp sb"
    and ok: "create_ok sb x s"
    and d: "distinct (placeholder_clocks (x # xs))"
  shows "unique_ids (cache (step sb x s))
       \<and> (\<forall>n \<in> set (placeholder_clocks xs).
            ''temp-'' @ string_of_nat n \<notin> set (map observation.id' (cache (step sb x s))))"
proof -
  obtain e oper where x: "x = (e, oper)" by (cases x)
  show ?thesis
  proof (cases oper)
    case (OpCreate obs)
    with x u j ok d create_step_inv [of s e obs xs sb] show ?thesis
      by simp
  next
    case OpFetch
    with x j have j': "\<forall>n \<in> set (placeholder_clocks xs).
        ''temp-'' @ string_of_nat n \<notin> set (map observation.id' (cache s))"
      by simp
    from refreshed_inv [OF u j' su st getObservations_cache [of sb e s]] OpFetch x
    show ?thesis by simp
  next
    case (OpUpdate obs)
    with x j have j': "\<forall>n \<in> set (placeholder_clocks xs).
        ''temp-'' @ string_of_nat n \<notin> set (map observation.id' (cache s))"
      by simp
    with OpUpdate x u updateObservation_ids [of sb e obs s] show ?thesis
      by (simp add: unique_ids_def)
  next
    case (OpDelete i)
    with x j have j': "\<forall>n \<in> set (placeholder_clocks xs).
        ''temp-'' @ string_of_nat n \<notin> set (map observation.id' (cache s))"
      by simp
    from deleteObservation_cache [of sb e i s] OpDelete x u j' show ?thesis
      by (auto dest: unique_ids_removeById simp: removeById_def)
  next
    case (OpImport current imported)
    with x j have j': "\<forall>n \<in> set (placeholder_clocks xs).
        ''temp-'' @ string_of_nat n \<notin> set (map observation.id' (cache s))"
      by simp
    with OpImport x u handleImportRequest_frame [of sb current imported s] show ?thesis
      by simp
  next
    case OpDrain
    with x j have j': "\<forall>n \<in> set (placeholder_clocks xs).
        ''temp-'' @ string_of_nat n \<notin> set (map observation.id' (cache s))"
      by simp
    from refreshed_inv [OF u j' su st processOfflineQueue_cache [of sb e s]] OpDrain x
    show ?thesis by simp
  qed
qed

lemma placeholder_clocks_append:
  "placeholder_clocks (xs @ ys) = placeholder_clocks xs @ placeholder_clocks ys"
  by (induction xs rule: placeholder_clocks.induct) simp_all

lemma distinct_placeholder_clocks_Cons:
  "distinct (placeholder_clocks (x # xs)) \<Longrightarrow> distinct (placeholder_clocks xs)"
  using placeholder_clocks_append [of "[x]" xs] by simp

lemma run_unique_ids:
  "unique_ids (cache s)
    \<Longrightarrow> \<forall>n \<in> set (placeholder_clocks evs).
          ''temp-'' @ string_of_nat n \<notin> set (map observation.id' (cache s))
    \<Longrightarrow> select_unique sb \<Longrightarrow> select_no_temp sb \<Longrightarrow> creates_ok sb evs s
    \<Longrightarrow> distinct (placeholder_clocks evs)
    \<Longrightarrow> unique_ids (cache (run sb evs s))"
proof (induction evs arbitrary: s)
  case Nil
  then show ?case by simp
next
  case (Cons x xs)
  from Cons.prems have ok: "create_ok sb x s" and oks: "creates_ok sb xs (step sb x s)"
    by simp_all
  from Cons.prems(6) have d: "distinct (placeholder_clocks xs)"
    by (rule distinct_placeholder_clocks_Cons)
  from step_inv [OF Cons.prems(1) Cons.prems(2) Cons.prems(3) Cons.prems(4) ok Cons.prems(6)]
  have "unique_ids (cache (step sb x s))"
    and "\<forall>n \<in> set (placeholder_clocks xs).
      ''temp-'' @ string_of_nat n \<notin> set (map observation.id' (cache (step sb x s)))"
    by blast+
  from Cons.IH [OF this Cons.prems(3) Cons.prems(4) oks d] show ?case
    by simp
qed

lemma creates_ok_take:
  "creates_ok sb evs s \<Longrightarrow> creates_ok sb (take k evs) s"
proof (induction evs arbitrary: s k)
  case Nil
  then show ?case by simp
next
  case (Cons x xs)
  then show ?case by (cases k) simp_all
qed

lemma placeholder_clocks_take:
  assumes "distinct (placeholder_clocks evs)"
  shows "distinct (placeholder_clocks (take k evs))"
proof -
  have "placeholder_clocks evs =
      placeholder_clocks (take k evs) @ placeholder_clocks (drop k evs)"
    using placeholder_clocks_append [of "take k evs" "drop k evs"] by simp
  with assms show ?thesis by simp
qed

text \<open>
  C6, amended. From an empty local cache, the local cache never holds two entries with the
  same id along a sequence of fetches, creates, updates, deletes, imports and drains in
  which: every offline create of a record that carries an id carries one that the cache
  does not hold and that does not start with \<^verbatim>\<open>temp-\<close>; the offline creates of records
  without an id read pairwise different values of \<^verbatim>\<open>Date.now()\<close>; the store answers an online
  create with an id that the cache does not hold and that does not start with \<^verbatim>\<open>temp-\<close>; and
  no select of the store lists an id twice or an id that starts with \<^verbatim>\<open>temp-\<close>.
\<close>

theorem cache_ids_unique:
  assumes "cache s0 = []" and "select_unique sb" and "select_no_temp sb"
    and "creates_ok sb evs s0" and "distinct (placeholder_clocks evs)"
  shows "\<forall>k \<le> length evs. unique_ids (cache (run sb (take k evs) s0))"
proof (intro allI impI)
  fix k
  from assms(1) have u: "unique_ids (cache s0)"
    by (simp add: unique_ids_def)
  from assms(1) have j: "\<forall>n \<in> set (placeholder_clocks (take k evs)).
      ''temp-'' @ string_of_nat n \<notin> set (map observation.id' (cache s0))"
    by simp
  from u j assms(2) assms(3) creates_ok_take [OF assms(4), of k]
    placeholder_clocks_take [OF assms(5), of k]
  show "unique_ids (cache (run sb (take k evs) s0))"
    by (rule run_unique_ids)
qed

text \<open>
  C6 as stated fails. From an empty cache: two offline creates of a record with the id
  \<^verbatim>\<open>a\<close> leave two entries with that id; two offline creates of records without an id that
  read the same clock, 42, leave two entries with the id \<^verbatim>\<open>temp-42\<close>; and so does an offline
  create of a record that carries the id \<^verbatim>\<open>temp-42\<close> followed by one without an id at clock 42.
\<close>

theorem cache_ids_unique_counterexample:
  "cache (state_of [] []) = []
   \<and> cache (run (fixed_client None (Rejects ''down'') (Rejects ''down'') (Rejects ''down''))
        [(env_of False 7, OpCreate (sample_obs ''a'' ''Pie'')),
         (env_of False 9, OpCreate (sample_obs ''a'' ''Pie''))] (state_of [] []))
       = [sample_obs ''a'' ''Pie'', sample_obs ''a'' ''Pie'']
   \<and> \<not> unique_ids (cache (run (fixed_client None (Rejects ''down'') (Rejects ''down'') (Rejects ''down''))
        [(env_of False 7, OpCreate (sample_obs ''a'' ''Pie'')),
         (env_of False 9, OpCreate (sample_obs ''a'' ''Pie''))] (state_of [] [])))
   \<and> cache (run (fixed_client None (Rejects ''down'') (Rejects ''down'') (Rejects ''down''))
        [(env_of False 42, OpCreate (sample_obs [] ''Merle noir'')),
         (env_of False 42, OpCreate (sample_obs [] ''Pie''))] (state_of [] []))
       = [sample_obs ''temp-42'' ''Pie'', sample_obs ''temp-42'' ''Merle noir'']
   \<and> \<not> unique_ids (cache (run (fixed_client None (Rejects ''down'') (Rejects ''down'') (Rejects ''down''))
        [(env_of False 42, OpCreate (sample_obs [] ''Merle noir'')),
         (env_of False 42, OpCreate (sample_obs [] ''Pie''))] (state_of [] [])))
   \<and> cache (run (fixed_client None (Rejects ''down'') (Rejects ''down'') (Rejects ''down''))
        [(env_of False 7, OpCreate (sample_obs ''temp-42'' ''Pie'')),
         (env_of False 42, OpCreate (sample_obs [] ''Merle noir''))] (state_of [] []))
       = [sample_obs ''temp-42'' ''Merle noir'', sample_obs ''temp-42'' ''Pie'']
   \<and> \<not> unique_ids (cache (run (fixed_client None (Rejects ''down'') (Rejects ''down'') (Rejects ''down''))
        [(env_of False 7, OpCreate (sample_obs ''temp-42'' ''Pie'')),
         (env_of False 42, OpCreate (sample_obs [] ''Merle noir''))] (state_of [] [])))"
  by (simp add: env_of_def fixed_client_def state_of_def sample_obs_def saveObservation_def
      getLocalCache_def setLocalCache_def addToQueue_def Let_def unique_ids_def
      string_of_nat_42)

lemma string_of_nat_51: "string_of_nat 51 = ''51''"
  by code_simp

text \<open>
  Two offline creates without an id at the clocks 42 and 51, one offline create with the
  id \<^verbatim>\<open>a\<close>, and an online create that the store answers with the id \<^verbatim>\<open>s2\<close>.
\<close>

theorem cache_ids_unique_witness:
  "cache (state_of [] []) = []
   \<and> distinct (placeholder_clocks
        [(env_of False 42, OpCreate (sample_obs [] ''Merle noir'')),
         (env_of False 50, OpCreate (sample_obs ''a'' ''Pie'')),
         (env_of False 51, OpCreate (sample_obs [] ''Geai'')),
         (env_of True 60, OpCreate (sample_obs [] ''Grive''))])
   \<and> cache (run (fixed_client (Some ''u1'') (Resolves (Some [sample_row ''s1'' ''Pie'']) None)
        (Resolves (Some (sample_row ''s2'' ''Grive'')) None) (Resolves None None))
        [(env_of False 42, OpCreate (sample_obs [] ''Merle noir'')),
         (env_of False 50, OpCreate (sample_obs ''a'' ''Pie'')),
         (env_of False 51, OpCreate (sample_obs [] ''Geai'')),
         (env_of True 60, OpCreate (sample_obs [] ''Grive''))] (state_of [] []))
       = [sample_obs ''s2'' ''Grive'', sample_obs ''temp-51'' ''Geai'', sample_obs ''a'' ''Pie'',
          sample_obs ''temp-42'' ''Merle noir'']
   \<and> unique_ids (cache (run (fixed_client (Some ''u1'') (Resolves (Some [sample_row ''s1'' ''Pie'']) None)
        (Resolves (Some (sample_row ''s2'' ''Grive'')) None) (Resolves None None))
        [(env_of False 42, OpCreate (sample_obs [] ''Merle noir'')),
         (env_of False 50, OpCreate (sample_obs ''a'' ''Pie'')),
         (env_of False 51, OpCreate (sample_obs [] ''Geai'')),
         (env_of True 60, OpCreate (sample_obs [] ''Grive''))] (state_of [] [])))"
proof -
  let ?c = "fixed_client (Some ''u1'') (Resolves (Some [sample_row ''s1'' ''Pie'']) None)
        (Resolves (Some (sample_row ''s2'' ''Grive'')) None) (Resolves None None)"
  let ?evs = "[(env_of False 42, OpCreate (sample_obs [] ''Merle noir'')),
         (env_of False 50, OpCreate (sample_obs ''a'' ''Pie'')),
         (env_of False 51, OpCreate (sample_obs [] ''Geai'')),
         (env_of True 60, OpCreate (sample_obs [] ''Grive''))]"
  have h1: "cache (state_of [] []) = []"
    by (simp add: state_of_def)
  have h2: "select_unique ?c"
    by (simp add: select_unique_def fixed_client_def sample_row_def)
  have h3: "select_no_temp ?c"
    by (simp add: select_no_temp_def fixed_client_def sample_row_def startsWith_def)
  have h4: "creates_ok ?c ?evs (state_of [] [])"
    by (simp add: env_of_def fixed_client_def state_of_def sample_obs_def sample_row_def
        saveObservation_def getLocalCache_def setLocalCache_def addToQueue_def Let_def
        startsWith_def string_of_nat_42 string_of_nat_51)
  have h5: "distinct (placeholder_clocks ?evs)"
    by (simp add: env_of_def sample_obs_def)
  have r: "cache (run ?c ?evs (state_of [] []))
      = [sample_obs ''s2'' ''Grive'', sample_obs ''temp-51'' ''Geai'', sample_obs ''a'' ''Pie'',
         sample_obs ''temp-42'' ''Merle noir'']"
    by (simp add: env_of_def fixed_client_def state_of_def sample_obs_def sample_row_def
        saveObservation_def getLocalCache_def setLocalCache_def addToQueue_def Let_def
        await_def mapToObservation_def string_of_nat_42 string_of_nat_51)
  from cache_ids_unique [OF h1 h2 h3 h4 h5]
  have "4 \<le> length ?evs \<longrightarrow> unique_ids (cache (run ?c (take 4 ?evs) (state_of [] [])))"
    by (rule spec)
  then have "unique_ids (cache (run ?c ?evs (state_of [] [])))"
    by simp
  with h1 h5 r show ?thesis by blast
qed

end
